theory Spec2Isabelle
  imports Main "HOL-Library.Word"
begin

unbundle bit_operations_syntax

section \<open>The DES primitive of qvncdes_p.h\<close>

text \<open>
  Byte arrays (\<^verbatim>\<open>quint8[]\<close>) are lists of 8-bit words. The permutation tables and the
  S-boxes are the tables of the header, entry for entry. Every loop of the header is a
  \<^const>\<open>fold\<close> over its index range, and \<^verbatim>\<open>memset(a, 0, n)\<close> is \<open>replicate n 0\<close>.
\<close>

type_synonym byte = "8 word"

definition IP_TABLE :: "nat list" where
  "IP_TABLE = [
    58, 50, 42, 34, 26, 18, 10,  2,
    60, 52, 44, 36, 28, 20, 12,  4,
    62, 54, 46, 38, 30, 22, 14,  6,
    64, 56, 48, 40, 32, 24, 16,  8,
    57, 49, 41, 33, 25, 17,  9,  1,
    59, 51, 43, 35, 27, 19, 11,  3,
    61, 53, 45, 37, 29, 21, 13,  5,
    63, 55, 47, 39, 31, 23, 15,  7]"

definition FP_TABLE :: "nat list" where
  "FP_TABLE = [
    40,  8, 48, 16, 56, 24, 64, 32,
    39,  7, 47, 15, 55, 23, 63, 31,
    38,  6, 46, 14, 54, 22, 62, 30,
    37,  5, 45, 13, 53, 21, 61, 29,
    36,  4, 44, 12, 52, 20, 60, 28,
    35,  3, 43, 11, 51, 19, 59, 27,
    34,  2, 42, 10, 50, 18, 58, 26,
    33,  1, 41,  9, 49, 17, 57, 25]"

definition E_TABLE :: "nat list" where
  "E_TABLE = [
    32,  1,  2,  3,  4,  5,
     4,  5,  6,  7,  8,  9,
     8,  9, 10, 11, 12, 13,
    12, 13, 14, 15, 16, 17,
    16, 17, 18, 19, 20, 21,
    20, 21, 22, 23, 24, 25,
    24, 25, 26, 27, 28, 29,
    28, 29, 30, 31, 32,  1]"

definition P_TABLE :: "nat list" where
  "P_TABLE = [
    16,  7, 20, 21, 29, 12, 28, 17,
     1, 15, 23, 26,  5, 18, 31, 10,
     2,  8, 24, 14, 32, 27,  3,  9,
    19, 13, 30,  6, 22, 11,  4, 25]"

definition PC1_TABLE :: "nat list" where
  "PC1_TABLE = [
    57, 49, 41, 33, 25, 17,  9,
     1, 58, 50, 42, 34, 26, 18,
    10,  2, 59, 51, 43, 35, 27,
    19, 11,  3, 60, 52, 44, 36,
    63, 55, 47, 39, 31, 23, 15,
     7, 62, 54, 46, 38, 30, 22,
    14,  6, 61, 53, 45, 37, 29,
    21, 13,  5, 28, 20, 12,  4]"

definition PC2_TABLE :: "nat list" where
  "PC2_TABLE = [
    14, 17, 11, 24,  1,  5,
     3, 28, 15,  6, 21, 10,
    23, 19, 12,  4, 26,  8,
    16,  7, 27, 20, 13,  2,
    41, 52, 31, 37, 47, 55,
    30, 40, 51, 45, 33, 48,
    44, 49, 39, 56, 34, 53,
    46, 42, 50, 36, 29, 32]"

definition KEY_SHIFTS :: "nat list" where
  "KEY_SHIFTS = [1, 1, 2, 2, 2, 2, 2, 2, 1, 2, 2, 2, 2, 2, 2, 1]"

definition S_BOXES :: "nat list list list" where
  "S_BOXES = [
    [[14,  4, 13,  1,  2, 15, 11,  8,  3, 10,  6, 12,  5,  9,  0,  7],
     [ 0, 15,  7,  4, 14,  2, 13,  1, 10,  6, 12, 11,  9,  5,  3,  8],
     [ 4,  1, 14,  8, 13,  6,  2, 11, 15, 12,  9,  7,  3, 10,  5,  0],
     [15, 12,  8,  2,  4,  9,  1,  7,  5, 11,  3, 14, 10,  0,  6, 13]],
    [[15,  1,  8, 14,  6, 11,  3,  4,  9,  7,  2, 13, 12,  0,  5, 10],
     [ 3, 13,  4,  7, 15,  2,  8, 14, 12,  0,  1, 10,  6,  9, 11,  5],
     [ 0, 14,  7, 11, 10,  4, 13,  1,  5,  8, 12,  6,  9,  3,  2, 15],
     [13,  8, 10,  1,  3, 15,  4,  2, 11,  6,  7, 12,  0,  5, 14,  9]],
    [[10,  0,  9, 14,  6,  3, 15,  5,  1, 13, 12,  7, 11,  4,  2,  8],
     [13,  7,  0,  9,  3,  4,  6, 10,  2,  8,  5, 14, 12, 11, 15,  1],
     [13,  6,  4,  9,  8, 15,  3,  0, 11,  1,  2, 12,  5, 10, 14,  7],
     [ 1, 10, 13,  0,  6,  9,  8,  7,  4, 15, 14,  3, 11,  5,  2, 12]],
    [[ 7, 13, 14,  3,  0,  6,  9, 10,  1,  2,  8,  5, 11, 12,  4, 15],
     [13,  8, 11,  5,  6, 15,  0,  3,  4,  7,  2, 12,  1, 10, 14,  9],
     [10,  6,  9,  0, 12, 11,  7, 13, 15,  1,  3, 14,  5,  2,  8,  4],
     [ 3, 15,  0,  6, 10,  1, 13,  8,  9,  4,  5, 11, 12,  7,  2, 14]],
    [[ 2, 12,  4,  1,  7, 10, 11,  6,  8,  5,  3, 15, 13,  0, 14,  9],
     [14, 11,  2, 12,  4,  7, 13,  1,  5,  0, 15, 10,  3,  9,  8,  6],
     [ 4,  2,  1, 11, 10, 13,  7,  8, 15,  9, 12,  5,  6,  3,  0, 14],
     [11,  8, 12,  7,  1, 14,  2, 13,  6, 15,  0,  9, 10,  4,  5,  3]],
    [[12,  1, 10, 15,  9,  2,  6,  8,  0, 13,  3,  4, 14,  7,  5, 11],
     [10, 15,  4,  2,  7, 12,  9,  5,  6,  1, 13, 14,  0, 11,  3,  8],
     [ 9, 14, 15,  5,  2,  8, 12,  3,  7,  0,  4, 10,  1, 13, 11,  6],
     [ 4,  3,  2, 12,  9,  5, 15, 10, 11, 14,  1,  7,  6,  0,  8, 13]],
    [[ 4, 11,  2, 14, 15,  0,  8, 13,  3, 12,  9,  7,  5, 10,  6,  1],
     [13,  0, 11,  7,  4,  9,  1, 10, 14,  3,  5, 12,  2, 15,  8,  6],
     [ 1,  4, 11, 13, 12,  3,  7, 14, 10, 15,  6,  8,  0,  5,  9,  2],
     [ 6, 11, 13,  8,  1,  4, 10,  7,  9,  5,  0, 15, 14,  2,  3, 12]],
    [[13,  2,  8,  4,  6, 15, 11,  1, 10,  9,  3, 14,  5,  0, 12,  7],
     [ 1, 15, 13,  8, 10,  3,  7,  4, 12,  5,  6, 11,  0, 14,  9,  2],
     [ 7, 11,  4,  1,  9, 12, 14,  2,  0,  6, 10, 13, 15,  3,  5,  8],
     [ 2,  1, 14,  7,  4, 10,  8, 13, 15, 12,  9,  0,  3,  5,  6, 11]]]"

definition desGetBit :: "byte list \<Rightarrow> nat \<Rightarrow> nat" where
  "desGetBit data pos = unat (drop_bit (7 - ((pos - 1) mod 8)) (data ! ((pos - 1) div 8)) AND 1)"

definition desSetBit :: "byte list \<Rightarrow> nat \<Rightarrow> nat \<Rightarrow> byte list" where
  "desSetBit data pos val =
     (if val \<noteq> 0
      then data[(pos - 1) div 8 := data ! ((pos - 1) div 8) OR push_bit (7 - ((pos - 1) mod 8)) 1]
      else data[(pos - 1) div 8 := data ! ((pos - 1) div 8) AND NOT (push_bit (7 - ((pos - 1) mod 8)) 1)])"

definition desPermStep :: "nat list \<Rightarrow> byte list \<Rightarrow> nat \<Rightarrow> byte list \<Rightarrow> byte list" where
  "desPermStep tab src i dst = (if desGetBit src (tab ! i) \<noteq> 0 then desSetBit dst (i + 1) 1 else dst)"

definition desPermute :: "nat list \<Rightarrow> nat \<Rightarrow> nat \<Rightarrow> byte list \<Rightarrow> byte list" where
  "desPermute tab n m src = fold (desPermStep tab src) [0..<n] (replicate m 0)"

definition desSplitStep :: "byte list \<Rightarrow> nat \<Rightarrow> 32 word \<times> 32 word \<Rightarrow> 32 word \<times> 32 word" where
  "desSplitStep pc1 i cd =
     ((if desGetBit pc1 (i + 1) \<noteq> 0 then fst cd OR push_bit (27 - i) 1 else fst cd),
      (if desGetBit pc1 (i + 29) \<noteq> 0 then snd cd OR push_bit (27 - i) 1 else snd cd))"

definition desRotl28 :: "32 word \<Rightarrow> nat \<Rightarrow> 32 word" where
  "desRotl28 c shift = (push_bit shift c OR drop_bit (28 - shift) c) AND 0x0FFFFFFF"

definition desJoinStep :: "32 word \<Rightarrow> 32 word \<Rightarrow> nat \<Rightarrow> byte list \<Rightarrow> byte list" where
  "desJoinStep c d i cd =
     (let cd1 = (if c AND push_bit (27 - i) 1 \<noteq> 0 then desSetBit cd (i + 1) 1 else cd)
      in if d AND push_bit (27 - i) 1 \<noteq> 0 then desSetBit cd1 (i + 29) 1 else cd1)"

definition desKeyRound :: "nat \<Rightarrow> 32 word \<times> 32 word \<times> byte list list \<Rightarrow> 32 word \<times> 32 word \<times> byte list list" where
  "desKeyRound round st =
     (case st of (c, d, subkeys) \<Rightarrow>
        let shift = KEY_SHIFTS ! round;
            c' = desRotl28 c shift;
            d' = desRotl28 d shift;
            cd = fold (desJoinStep c' d') [0..<28] (replicate 7 0)
        in (c', d', subkeys[round := desPermute PC2_TABLE 48 6 cd]))"

definition desKeySchedule :: "byte list \<Rightarrow> byte list list" where
  "desKeySchedule key =
     (let pc1 = desPermute PC1_TABLE 56 7 key;
          cd = fold (desSplitStep pc1) [0..<28] (0, 0)
      in snd (snd (fold desKeyRound [0..<16] (fst cd, snd cd, replicate 16 (replicate 6 0)))))"

definition desSboxStep :: "byte list \<Rightarrow> nat \<Rightarrow> byte list \<Rightarrow> byte list" where
  "desSboxStep expanded i sboxOut =
     (let bit = i * 6 + 1;
          row = desGetBit expanded bit * 2 + desGetBit expanded (bit + 5);
          col = desGetBit expanded (bit + 1) * 8 + desGetBit expanded (bit + 2) * 4
              + desGetBit expanded (bit + 3) * 2 + desGetBit expanded (bit + 4);
          val = S_BOXES ! i ! row ! col;
          outBit = i * 4 + 1
      in desSetBit (desSetBit (desSetBit (desSetBit sboxOut
           outBit (drop_bit 3 val AND 1))
           (outBit + 1) (drop_bit 2 val AND 1))
           (outBit + 2) (drop_bit 1 val AND 1))
           (outBit + 3) (val AND 1))"

definition desFeistel :: "byte list \<Rightarrow> byte list \<Rightarrow> byte list" where
  "desFeistel right subkey =
     (let expanded = desPermute E_TABLE 48 6 right;
          expanded' = fold (\<lambda>i e. e[i := e ! i XOR subkey ! i]) [0..<6] expanded;
          sboxOut = fold (desSboxStep expanded') [0..<8] (replicate 4 0)
      in desPermute P_TABLE 32 4 sboxOut)"

definition desRound :: "byte list list \<Rightarrow> nat \<Rightarrow> byte list \<times> byte list \<Rightarrow> byte list \<times> byte list" where
  "desRound subkeys round lr =
     (case lr of (left, right) \<Rightarrow>
        let fResult = desFeistel right (subkeys ! round);
            newRight = fold (\<lambda>i nr. nr[i := left ! i XOR fResult ! i]) [0..<4] (replicate 4 0)
        in (right, newRight))"

definition desEncryptBlock :: "byte list \<Rightarrow> byte list \<Rightarrow> byte list" where
  "desEncryptBlock key input =
     (let subkeys = desKeySchedule key;
          ip = desPermute IP_TABLE 64 8 input;
          lr = fold (desRound subkeys) [0..<16] (take 4 ip, take 4 (drop 4 ip));
          preOutput = snd lr @ fst lr
      in desPermute FP_TABLE 64 8 preOutput)"

subsection \<open>The VNC key adaptor\<close>

text \<open>
  A \<^verbatim>\<open>QString\<close> is a sequence of UTF-16 code units. \<^verbatim>\<open>QString::toLatin1\<close> is Qt's: a code unit
  up to U+00FF becomes the byte of the same value, any other becomes a question mark.
\<close>

type_synonym QString = "16 word list"

definition toLatin1 :: "QString \<Rightarrow> byte list" where
  "toLatin1 s = map (\<lambda>c. if c \<le> 0xFF then ucast c else 0x3F) s"

definition desReverseBits :: "byte \<Rightarrow> byte" where
  "desReverseBits b =
     (let b1 = drop_bit 4 (b AND 0xF0) OR push_bit 4 (b AND 0x0F);
          b2 = drop_bit 2 (b1 AND 0xCC) OR push_bit 2 (b1 AND 0x33)
      in drop_bit 1 (b2 AND 0xAA) OR push_bit 1 (b2 AND 0x55))"

text \<open>
  \<^verbatim>\<open>vncEncryptChallenge\<close>: the key array is zeroed, then its first \<open>min (size pwd) 8\<close>
  entries are overwritten; the two halves of the challenge are encrypted into the two
  halves of the 16-byte response. The header asserts that the challenge has 16 bytes.
\<close>

definition vncEncryptChallenge :: "QString \<Rightarrow> byte list \<Rightarrow> byte list" where
  "vncEncryptChallenge password challenge =
     (let pwd = toLatin1 password;
          key = fold (\<lambda>i key. key[i := desReverseBits (pwd ! i)])
                  [0..<min (length pwd) 8] (replicate 8 0)
      in desEncryptBlock key (take 8 challenge)
         @ desEncryptBlock key (take 8 (drop 8 challenge)))"

text \<open>
  The key as the specification words it: the first 8 bytes of the Latin-1 password,
  right-padded with zero bytes, each byte with its bit order reversed.
\<close>

definition vncKeySpec :: "QString \<Rightarrow> byte list" where
  "vncKeySpec password =
     map desReverseBits (take 8 (toLatin1 password) @ replicate (8 - length (toLatin1 password)) 0)"

section \<open>DES: the byte-level code refines a bit-level reading\<close>

definition byteBits :: "byte \<Rightarrow> bool list" where
  "byteBits w = map (\<lambda>i. bit w (7 - i)) [0..<8]"

definition bitsOf :: "byte list \<Rightarrow> bool list" where
  "bitsOf data = concat (map byteBits data)"

lemma length_byteBits: "length (byteBits w) = 8"
  by (simp add: byteBits_def)

lemma byteBits_nth: "q < 8 \<Longrightarrow> byteBits w ! q = bit w (7 - q)"
  unfolding byteBits_def by (subst nth_map) (simp_all del: upt.simps)

lemma length_bitsOf: "length (bitsOf data) = 8 * length data"
  by (induction data) (simp_all add: bitsOf_def length_byteBits)

lemma bitsOf_Cons: "bitsOf (w # ws) = byteBits w @ bitsOf ws"
  by (simp add: bitsOf_def)

lemma bitsOf_nth:
  "q < 8 * length data \<Longrightarrow> bitsOf data ! q = bit (data ! (q div 8)) (7 - q mod 8)"
proof (induction data arbitrary: q)
  case Nil
  then show ?case by simp
next
  case (Cons w ws)
  show ?case
  proof (cases "q < 8")
    case True
    then show ?thesis
      by (simp add: bitsOf_Cons nth_append length_byteBits byteBits_nth)
  next
    case False
    then have q8: "8 \<le> q" by simp
    with Cons.prems have "q - 8 < 8 * length ws" by simp
    then have "bitsOf ws ! (q - 8) = bit (ws ! ((q - 8) div 8)) (7 - (q - 8) mod 8)"
      by (rule Cons.IH)
    moreover from q8 have "(q - 8) div 8 = q div 8 - 1" "0 < q div 8"
      by simp_all
    moreover from q8 have "(q - 8) mod 8 = q mod 8"
      by (metis le_mod_geq)
    ultimately show ?thesis using False
      by (simp add: bitsOf_Cons nth_append length_byteBits)
  qed
qed

lemma drop_bit_and_1: "drop_bit n (w :: 'a::len word) AND 1 = of_bool (bit w n)"
  by (metis bit_iff_odd_drop_bit bit_word_iff_drop_bit_and even_word_def
    even_word_iff of_bool_eq_0_iff of_bool_eq_1_iff)

lemma unat_drop_bit_and_1: "unat (drop_bit n (w :: 'a::len word) AND 1) = of_bool (bit w n)"
  unfolding drop_bit_and_1 by (cases "bit w n") simp_all

lemma desGetBit_of_bool:
  "desGetBit data pos = of_bool (bit (data ! ((pos - 1) div 8)) (7 - (pos - 1) mod 8))"
  by (simp add: desGetBit_def unat_drop_bit_and_1)

lemma desGetBit_bitsOf:
  "q < 8 * length data \<Longrightarrow> (desGetBit data (Suc q) \<noteq> 0) = bitsOf data ! q"
  by (simp add: desGetBit_of_bool bitsOf_nth)

lemma desGetBit_bitsOf_iff:
  assumes "q < 8 * length data"
  shows "(desGetBit data (Suc q) = 0) = (\<not> bitsOf data ! q)"
    and "(0 < desGetBit data (Suc q)) = bitsOf data ! q"
  using desGetBit_bitsOf [OF assms] by auto

lemma length_desSetBit: "length (desSetBit data pos v) = length data"
  by (simp add: desSetBit_def)

lemma bit_set_byte: "j < 8 \<Longrightarrow> bit ((w::byte) OR push_bit j 1) i = (bit w i \<or> i = j)"
  by (auto simp add: bit_or_iff bit_push_bit_iff bit_1_iff bit_exp_iff)

lemma bit_clear_byte: "j < 8 \<Longrightarrow> bit ((w::byte) AND NOT (push_bit j 1)) i = (bit w i \<and> i \<noteq> j)"
  by (auto simp add: bit_and_iff bit_not_iff bit_push_bit_iff bit_1_iff bit_exp_iff dest: bit_imp_le_length)


lemma desSetBit_nth_same:
  "q div 8 < length data \<Longrightarrow>
   desSetBit data (Suc q) v ! (q div 8) =
     (if v \<noteq> 0 then data ! (q div 8) OR push_bit (7 - q mod 8) 1
      else data ! (q div 8) AND NOT (push_bit (7 - q mod 8) 1))"
  by (simp add: desSetBit_def)

lemma desSetBit_nth_other:
  "k \<noteq> q div 8 \<Longrightarrow> desSetBit data (Suc q) v ! k = data ! k"
  by (simp add: desSetBit_def)

lemma bit_desSetBit_same:
  assumes "q div 8 < length data"
  shows "bit (desSetBit data (Suc q) v ! (q div 8)) i =
         (if i = 7 - q mod 8 then v \<noteq> 0 else bit (data ! (q div 8)) i)"
proof -
  have j: "7 - q mod 8 < 8" by simp
  show ?thesis
    unfolding desSetBit_nth_same [OF assms]
    using bit_set_byte [OF j] bit_clear_byte [OF j] by simp
qed

lemma bitsOf_desSetBit:
  assumes "q < 8 * length data"
  shows "bitsOf (desSetBit data (Suc q) v) = (bitsOf data)[q := (v \<noteq> 0)]"
proof (rule nth_equalityI)
  show "length (bitsOf (desSetBit data (Suc q) v)) = length ((bitsOf data)[q := (v \<noteq> 0)])"
    by (simp add: length_bitsOf length_desSetBit)
next
  fix r assume "r < length (bitsOf (desSetBit data (Suc q) v))"
  then have r: "r < 8 * length data" by (simp add: length_bitsOf length_desSetBit)
  then have r': "r < 8 * length (desSetBit data (Suc q) v)" by (simp add: length_desSetBit)
  have qd: "q div 8 < length data" using assms by simp
  have eq_iff: "(7 - r mod 8 = 7 - q mod 8) = (r = q)" if "r div 8 = q div 8"
  proof -
    have "r mod 8 < 8" "q mod 8 < 8" by simp_all
    then have "(7 - r mod 8 = 7 - q mod 8) = (r mod 8 = q mod 8)" by linarith
    also have "\<dots> = (r = q)" using that by (metis div_mult_mod_eq)
    finally show ?thesis .
  qed
  have lhs: "bitsOf (desSetBit data (Suc q) v) ! r = bit (desSetBit data (Suc q) v ! (r div 8)) (7 - r mod 8)"
    by (rule bitsOf_nth [OF r'])
  have rhs: "(bitsOf data)[q := (v \<noteq> 0)] ! r = (if r = q then v \<noteq> 0 else bit (data ! (r div 8)) (7 - r mod 8))"
    using r assms by (simp add: nth_list_update length_bitsOf bitsOf_nth)
  show "bitsOf (desSetBit data (Suc q) v) ! r = (bitsOf data)[q := (v \<noteq> 0)] ! r"
  proof (cases "r div 8 = q div 8")
    case True
    have "bit (desSetBit data (Suc q) v ! (r div 8)) (7 - r mod 8) =
          (if 7 - r mod 8 = 7 - q mod 8 then v \<noteq> 0 else bit (data ! (q div 8)) (7 - r mod 8))"
      unfolding True by (rule bit_desSetBit_same [OF qd])
    then show ?thesis unfolding lhs rhs using eq_iff [OF True] True by simp
  next
    case False
    then have "r \<noteq> q" by auto
    then show ?thesis unfolding lhs rhs using desSetBit_nth_other [OF False] by simp
  qed
qed


lemma fold_sim:
  assumes step: "\<And>i s. i \<in> set xs \<Longrightarrow> I s \<Longrightarrow> \<alpha> (f i s) = g i (\<alpha> s) \<and> I (f i s)"
    and init: "I s"
  shows "\<alpha> (fold f xs s) = fold g xs (\<alpha> s) \<and> I (fold f xs s)"
  using assms
proof (induction xs arbitrary: s)
  case Nil
  then show ?case by simp
next
  case (Cons x xs)
  have a: "\<alpha> (f x s) = g x (\<alpha> s)" and b: "I (f x s)"
    using Cons.prems(1) [of x s] Cons.prems(2) by simp_all
  have "\<alpha> (fold f xs (f x s)) = fold g xs (\<alpha> (f x s)) \<and> I (fold f xs (f x s))"
    by (rule Cons.IH) (use Cons.prems(1) b in auto)
  then show ?case by (simp add: a)
qed

lemma bitsOf_replicate_0: "bitsOf (replicate m 0) = replicate (8 * m) False"
proof (induction m)
  case 0
  then show ?case by (simp add: bitsOf_def)
next
  case (Suc m)
  have "byteBits 0 = replicate 8 False"
    by (rule nth_equalityI) (simp_all add: length_byteBits byteBits_nth)
  moreover have "replicate (8 * Suc m) False = replicate 8 False @ replicate (8 * m) False"
    by (simp add: replicate_add [symmetric])
  ultimately show ?case using Suc
    by (simp only: replicate_Suc bitsOf_Cons)
qed

definition desPermStepB :: "nat list \<Rightarrow> bool list \<Rightarrow> nat \<Rightarrow> bool list \<Rightarrow> bool list" where
  "desPermStepB tab src i dst = (if src ! (tab ! i - 1) then dst[i := True] else dst)"

definition desPermuteB :: "nat list \<Rightarrow> nat \<Rightarrow> nat \<Rightarrow> bool list \<Rightarrow> bool list" where
  "desPermuteB tab n m src = fold (desPermStepB tab src) [0..<n] (replicate (8 * m) False)"

lemma bitsOf_desPermStep:
  assumes "i < 8 * length dst" "1 \<le> tab ! i" "tab ! i \<le> 8 * length src"
  shows "bitsOf (desPermStep tab src i dst) = desPermStepB tab (bitsOf src) i (bitsOf dst)"
proof -
  from assms obtain q where q: "tab ! i = Suc q" "q < 8 * length src"
    by (cases "tab ! i") auto
  show ?thesis
    using assms(1) q
    by (simp add: desPermStep_def desPermStepB_def desGetBit_bitsOf_iff bitsOf_desSetBit)
qed

lemma length_desPermStep: "length (desPermStep tab src i dst) = length dst"
  by (simp add: desPermStep_def length_desSetBit)

lemma bitsOf_desPermute:
  assumes "n \<le> 8 * m" "n \<le> length tab" "\<forall>p\<in>set tab. 1 \<le> p \<and> p \<le> 8 * length src"
  shows "bitsOf (desPermute tab n m src) = desPermuteB tab n m (bitsOf src)
         \<and> length (desPermute tab n m src) = m"
proof -
  have "bitsOf (fold (desPermStep tab src) [0..<n] (replicate m 0))
          = fold (desPermStepB tab (bitsOf src)) [0..<n] (bitsOf (replicate m 0))
        \<and> length (fold (desPermStep tab src) [0..<n] (replicate m 0)) = m"
  proof (rule fold_sim)
    fix i s assume i: "i \<in> set [0..<n]" and s: "length (s :: byte list) = m"
    from i assms(2) have "tab ! i \<in> set tab" by simp
    with assms(3) have "1 \<le> tab ! i" "tab ! i \<le> 8 * length src" by auto
    moreover from i s assms(1) have "i < 8 * length s" by simp
    ultimately show "bitsOf (desPermStep tab src i s) = desPermStepB tab (bitsOf src) i (bitsOf s)
        \<and> length (desPermStep tab src i s) = m"
      using s by (simp add: bitsOf_desPermStep length_desPermStep)
  qed simp
  then show ?thesis by (simp add: desPermute_def desPermuteB_def bitsOf_replicate_0)
qed


definition bits28 :: "32 word \<Rightarrow> bool list" where
  "bits28 c = map (\<lambda>i. bit c (27 - i)) [0..<28]"

definition low28 :: "32 word \<Rightarrow> bool" where
  "low28 c = (\<forall>j. bit c j \<longrightarrow> j < 28)"

lemma length_bits28: "length (bits28 c) = 28"
  by (simp add: bits28_def)

lemma bits28_nth: "i < 28 \<Longrightarrow> bits28 c ! i = bit c (27 - i)"
  unfolding bits28_def by (subst nth_map) (simp_all del: upt.simps)

lemma bits28_0: "bits28 0 = replicate 28 False"
  by (rule nth_equalityI) (simp_all add: length_bits28 bits28_nth)

lemma low28_0: "low28 0"
  by (simp add: low28_def)

lemma bit_set_word32: "j < 32 \<Longrightarrow> bit ((c::32 word) OR push_bit j 1) i = (bit c i \<or> i = j)"
  by (auto simp add: bit_or_iff bit_push_bit_iff bit_1_iff bit_exp_iff)

lemma bit_set_word32_exp: "j < 32 \<Longrightarrow> bit ((c::32 word) OR 2 ^ j) i = (bit c i \<or> i = j)"
  using bit_set_word32 [of j c i] by (simp add: push_bit_of_1)

lemma bits28_set:
  assumes "i < 28"
  shows "bits28 (c OR push_bit (27 - i) 1) = (bits28 c)[i := True]"
proof (rule nth_equalityI)
  show "length (bits28 (c OR push_bit (27 - i) 1)) = length ((bits28 c)[i := True])"
    by (simp add: length_bits28)
next
  fix r assume "r < length (bits28 (c OR push_bit (27 - i) 1))"
  then have r: "r < 28" by (simp add: length_bits28)
  have j: "27 - i < 32" by simp
  from r assms have e: "(27 - r = 27 - i) = (r = i)" by linarith
  show "bits28 (c OR push_bit (27 - i) 1) ! r = (bits28 c)[i := True] ! r"
    using r assms e
    by (simp add: bits28_nth bit_set_word32_exp [OF j] nth_list_update length_bits28)
qed

lemma low28_set: "low28 c \<Longrightarrow> i < 28 \<Longrightarrow> low28 (c OR push_bit (27 - i) 1)"
  unfolding low28_def
proof (intro allI impI)
  fix j assume a: "\<forall>j. bit c j \<longrightarrow> j < 28" "i < 28" "bit (c OR push_bit (27 - i) 1) j"
  have "27 - i < 32" by simp
  from a(3) bit_set_word32 [OF this] have "bit c j \<or> j = 27 - i" by simp
  with a(1) show "j < 28" by auto
qed

definition desSplitStepB :: "bool list \<Rightarrow> nat \<Rightarrow> bool list \<times> bool list \<Rightarrow> bool list \<times> bool list" where
  "desSplitStepB pc1 i cd =
     ((if pc1 ! i then (fst cd)[i := True] else fst cd),
      (if pc1 ! (i + 28) then (snd cd)[i := True] else snd cd))"

lemma desSplitStep_sim:
  assumes "i < 28" "length pc1 = 7" "low28 (fst cd)" "low28 (snd cd)"
  shows "(bits28 (fst (desSplitStep pc1 i cd)), bits28 (snd (desSplitStep pc1 i cd)))
           = desSplitStepB (bitsOf pc1) i (bits28 (fst cd), bits28 (snd cd))
         \<and> low28 (fst (desSplitStep pc1 i cd)) \<and> low28 (snd (desSplitStep pc1 i cd))"
proof -
  have a: "i < 8 * length pc1" "i + 28 < 8 * length pc1" using assms by simp_all
  have b: "i + 29 = Suc (i + 28)" "i + 1 = Suc i" by simp_all
  have g1: "(desGetBit pc1 (i + 1) \<noteq> 0) = bitsOf pc1 ! i"
    unfolding b by (rule desGetBit_bitsOf [OF a(1)])
  have g2: "(desGetBit pc1 (i + 29) \<noteq> 0) = bitsOf pc1 ! (i + 28)"
    unfolding b by (rule desGetBit_bitsOf [OF a(2)])
  show ?thesis
    unfolding desSplitStep_def desSplitStepB_def g1 g2
    using assms by (simp add: bits28_set low28_set del: push_bit_of_1)
qed

lemma mask28: "(0x0FFFFFFF :: 32 word) = mask 28"
  by (simp add: mask_eq_exp_minus_1)

lemma bit_desRotl28:
  "bit (desRotl28 c s) j = (j < 28 \<and> ((s \<le> j \<and> bit c (j - s)) \<or> bit c (28 - s + j)))"
  unfolding desRotl28_def mask28
  by (auto simp add: bit_and_iff bit_or_iff bit_push_bit_iff bit_drop_bit_eq bit_mask_iff)

lemma low28_desRotl28: "low28 (desRotl28 c s)"
  by (simp add: low28_def bit_desRotl28)

lemma bits28_desRotl28:
  assumes "low28 c" "s \<le> 28"
  shows "bits28 (desRotl28 c s) = rotate s (bits28 c)"
proof (rule nth_equalityI)
  show "length (bits28 (desRotl28 c s)) = length (rotate s (bits28 c))"
    by (simp add: length_bits28)
next
  fix r assume "r < length (bits28 (desRotl28 c s))"
  then have r: "r < 28" by (simp add: length_bits28)
  have rot: "rotate s (bits28 c) ! r = bits28 c ! ((s + r) mod 28)"
    using r by (simp add: nth_rotate length_bits28)
  have m: "(s + r) mod 28 < 28" by simp
  have lt: "27 - r < 28" by linarith
  show "bits28 (desRotl28 c s) ! r = rotate s (bits28 c) ! r"
  proof (cases "s + r < 28")
    case True
    then have "\<not> (28 - s + (27 - r) < 28)" by simp
    then have "\<not> bit c (28 - s + (27 - r))"
      using assms(1) unfolding low28_def by blast
    moreover from True have "s \<le> 27 - r" "27 - r - s = 27 - (s + r)" by simp_all
    ultimately show ?thesis using r True lt
      by (simp add: rot bits28_nth bit_desRotl28)
  next
    case False
    then have "\<not> s \<le> 27 - r" using r by simp
    moreover from False r assms(2) have "(s + r) mod 28 = s + r - 28"
      by (simp add: mod_if)
    moreover from False r assms(2) have "28 - s + (27 - r) = 27 - (s + r - 28)" by simp
    ultimately show ?thesis using r lt
      by (simp add: rot bits28_nth bit_desRotl28 m)
  qed
qed


definition desJoinStepB :: "bool list \<Rightarrow> bool list \<Rightarrow> nat \<Rightarrow> bool list \<Rightarrow> bool list" where
  "desJoinStepB c d i cd =
     (let cd1 = (if c ! i then cd[i := True] else cd)
      in if d ! i then cd1[i + 28 := True] else cd1)"

lemma test_bit32: "((c::32 word) AND push_bit n 1 \<noteq> 0) = bit c n"
  by (simp only: bit_iff_and_push_bit_not_eq_0)

lemma desJoinStep_sim:
  assumes "i < 28" "length cd = 7"
  shows "bitsOf (desJoinStep c d i cd) = desJoinStepB (bits28 c) (bits28 d) i (bitsOf cd)
         \<and> length (desJoinStep c d i cd) = 7"
proof -
  have b: "i + 29 = Suc (i + 28)" "i + 1 = Suc i" by simp_all
  have t: "(c AND push_bit (27 - i) 1 \<noteq> 0) = bits28 c ! i"
          "(d AND push_bit (27 - i) 1 \<noteq> 0) = bits28 d ! i"
    using assms(1) by (simp_all only: test_bit32 bits28_nth)
  have a: "i < 8 * length cd" "i + 28 < 8 * length cd" using assms by simp_all
  have s1: "bitsOf (desSetBit cd (Suc i) 1) = (bitsOf cd)[i := True]"
    using bitsOf_desSetBit [OF a(1), of 1] by simp
  have s2: "bitsOf (desSetBit x (Suc (i + 28)) 1) = (bitsOf x)[i + 28 := True]" if "length x = 7" for x
    using bitsOf_desSetBit [of "i + 28" x 1] assms(1) that by simp
  have l1: "length (desSetBit cd (Suc i) 1) = 7"
    by (simp only: length_desSetBit assms(2))
  show ?thesis
    unfolding desJoinStep_def desJoinStepB_def t b Let_def
    by (cases "bits28 c ! i"; cases "bits28 d ! i")
      (simp_all only: if_True if_False s1 s2 [OF l1] s2 [OF assms(2)] length_desSetBit assms(2) simp_thms)
qed

definition desKeyRoundB ::
  "nat \<Rightarrow> bool list \<times> bool list \<times> bool list list \<Rightarrow> bool list \<times> bool list \<times> bool list list" where
  "desKeyRoundB round st =
     (case st of (c, d, subkeys) \<Rightarrow>
        let shift = KEY_SHIFTS ! round;
            c' = rotate shift c;
            d' = rotate shift d;
            cd = fold (desJoinStepB c' d') [0..<28] (replicate (8 * 7) False)
        in (c', d', subkeys[round := desPermuteB PC2_TABLE 48 6 cd]))"

definition keyAbs :: "32 word \<times> 32 word \<times> byte list list \<Rightarrow> bool list \<times> bool list \<times> bool list list" where
  "keyAbs st = (case st of (c, d, sk) \<Rightarrow> (bits28 c, bits28 d, map bitsOf sk))"

definition keyInv :: "32 word \<times> 32 word \<times> byte list list \<Rightarrow> bool" where
  "keyInv st = (case st of (c, d, sk) \<Rightarrow> low28 c \<and> low28 d \<and> length sk = 16 \<and> (\<forall>k\<in>set sk. length k = 6))"

lemma KEY_SHIFTS_le: "round < 16 \<Longrightarrow> KEY_SHIFTS ! round \<le> 28"
proof -
  have "\<forall>s\<in>set KEY_SHIFTS. s \<le> 28" by (simp add: KEY_SHIFTS_def)
  moreover have "length KEY_SHIFTS = 16" by (simp add: KEY_SHIFTS_def)
  ultimately show "round < 16 \<Longrightarrow> KEY_SHIFTS ! round \<le> 28" by simp
qed

lemma PC2_TABLE_ok: "length PC2_TABLE = 48" "\<forall>p\<in>set PC2_TABLE. 1 \<le> p \<and> p \<le> 56"
  by (simp_all add: PC2_TABLE_def)

lemma desJoin_fold_sim:
  "bitsOf (fold (desJoinStep c d) [0..<28] (replicate 7 0))
     = fold (desJoinStepB (bits28 c) (bits28 d)) [0..<28] (replicate (8 * 7) False)
   \<and> length (fold (desJoinStep c d) [0..<28] (replicate 7 0)) = 7"
proof -
  have "bitsOf (fold (desJoinStep c d) [0..<28] (replicate 7 0))
     = fold (desJoinStepB (bits28 c) (bits28 d)) [0..<28] (bitsOf (replicate 7 0))
   \<and> length (fold (desJoinStep c d) [0..<28] (replicate 7 0)) = 7"
    by (rule fold_sim) (simp_all add: desJoinStep_sim)
  then show ?thesis by (simp only: bitsOf_replicate_0)
qed

lemma desKeyRound_sim:
  assumes "round < 16" "keyInv st"
  shows "keyAbs (desKeyRound round st) = desKeyRoundB round (keyAbs st) \<and> keyInv (desKeyRound round st)"
proof -
  obtain c d sk where st: "st = (c, d, sk)" by (cases st)
  from assms(2) st have inv: "low28 c" "low28 d" "length sk = 16" "\<forall>k\<in>set sk. length k = 6"
    by (simp_all add: keyInv_def)
  define sh where "sh = KEY_SHIFTS ! round"
  have sh: "sh \<le> 28" unfolding sh_def by (rule KEY_SHIFTS_le [OF assms(1)])
  define c' where "c' = desRotl28 c sh"
  define d' where "d' = desRotl28 d sh"
  define cd where "cd = fold (desJoinStep c' d') [0..<28] (replicate 7 0)"
  define k where "k = desPermute PC2_TABLE 48 6 cd"
  have r: "desKeyRound round st = (c', d', sk[round := k])"
    by (simp add: desKeyRound_def st Let_def sh_def c'_def d'_def cd_def k_def)
  have bc: "bits28 c' = rotate sh (bits28 c)" "bits28 d' = rotate sh (bits28 d)"
    unfolding c'_def d'_def using inv sh by (simp_all add: bits28_desRotl28)
  have lc: "low28 c'" "low28 d'" unfolding c'_def d'_def by (rule low28_desRotl28)+
  have cdB: "bitsOf cd = fold (desJoinStepB (bits28 c') (bits28 d')) [0..<28] (replicate (8 * 7) False)"
    and cdL: "length cd = 7"
    unfolding cd_def using desJoin_fold_sim [of c' d'] by simp_all
  have "(48::nat) \<le> 8 * 6" "48 \<le> length PC2_TABLE" "\<forall>p\<in>set PC2_TABLE. 1 \<le> p \<and> p \<le> 8 * length cd"
    using PC2_TABLE_ok cdL by simp_all
  from bitsOf_desPermute [OF this]
  have kB: "bitsOf k = desPermuteB PC2_TABLE 48 6 (bitsOf cd)" and kL: "length k = 6"
    unfolding k_def by simp_all
  have "keyAbs (desKeyRound round st) = desKeyRoundB round (keyAbs st)"
    unfolding r unfolding st keyAbs_def desKeyRoundB_def
    by (simp add: Let_def sh_def [symmetric] bc cdB kB map_update del: fold_simps)
  moreover have "keyInv (desKeyRound round st)"
    unfolding r keyInv_def using lc inv kL
    by (auto dest: set_update_subset_insert [THEN subsetD])
  ultimately show ?thesis by simp
qed


definition desKeyScheduleB :: "bool list \<Rightarrow> bool list list" where
  "desKeyScheduleB key =
     (let pc1 = desPermuteB PC1_TABLE 56 7 key;
          cd = fold (desSplitStepB pc1) [0..<28] (replicate 28 False, replicate 28 False)
      in snd (snd (fold desKeyRoundB [0..<16] (fst cd, snd cd, replicate 16 (replicate (8 * 6) False)))))"

lemma PC1_TABLE_ok: "length PC1_TABLE = 56" "\<forall>p\<in>set PC1_TABLE. 1 \<le> p \<and> p \<le> 64"
  by (simp_all add: PC1_TABLE_def)

definition splitAbs :: "32 word \<times> 32 word \<Rightarrow> bool list \<times> bool list" where
  "splitAbs cd = (bits28 (fst cd), bits28 (snd cd))"

lemma desSplit_fold_sim:
  assumes "length pc1 = 7"
  shows "splitAbs (fold (desSplitStep pc1) [0..<28] (0, 0))
           = fold (desSplitStepB (bitsOf pc1)) [0..<28] (replicate 28 False, replicate 28 False)
         \<and> (low28 (fst (fold (desSplitStep pc1) [0..<28] (0, 0)))
            \<and> low28 (snd (fold (desSplitStep pc1) [0..<28] (0, 0))))"
proof -
  have "splitAbs (fold (desSplitStep pc1) [0..<28] (0, 0))
           = fold (desSplitStepB (bitsOf pc1)) [0..<28] (splitAbs (0, 0))
         \<and> (low28 (fst (fold (desSplitStep pc1) [0..<28] (0, 0)))
            \<and> low28 (snd (fold (desSplitStep pc1) [0..<28] (0, 0))))"
  proof (rule fold_sim [where I = "\<lambda>cd. low28 (fst cd) \<and> low28 (snd cd)"])
    fix i s assume "i \<in> set [0..<28]" and "low28 (fst (s :: 32 word \<times> 32 word)) \<and> low28 (snd s)"
    then have "i < 28" "low28 (fst s)" "low28 (snd s)" by simp_all
    from desSplitStep_sim [OF this(1) assms this(2,3)]
    show "splitAbs (desSplitStep pc1 i s) = desSplitStepB (bitsOf pc1) i (splitAbs s)
       \<and> (low28 (fst (desSplitStep pc1 i s)) \<and> low28 (snd (desSplitStep pc1 i s)))"
      by (simp only: splitAbs_def simp_thms)
  qed (simp add: low28_0)
  then show ?thesis by (simp only: splitAbs_def fst_conv snd_conv bits28_0)
qed

lemma desKeySchedule_sim:
  assumes "length key = 8"
  shows "map bitsOf (desKeySchedule key) = desKeyScheduleB (bitsOf key)
         \<and> length (desKeySchedule key) = 16 \<and> (\<forall>k\<in>set (desKeySchedule key). length k = 6)"
proof -
  define pc1 where "pc1 = desPermute PC1_TABLE 56 7 key"
  define cd where "cd = fold (desSplitStep pc1) [0..<28] (0, 0)"
  define st0 where "st0 = (fst cd, snd cd, replicate 16 (replicate 6 (0::byte)))"
  define st where "st = fold desKeyRound [0..<16] st0"
  have ks: "desKeySchedule key = snd (snd st)"
    by (simp only: desKeySchedule_def Let_def pc1_def cd_def st0_def st_def)
  have "(56::nat) \<le> 8 * 7" "56 \<le> length PC1_TABLE" "\<forall>p\<in>set PC1_TABLE. 1 \<le> p \<and> p \<le> 8 * length key"
    using PC1_TABLE_ok assms by simp_all
  from bitsOf_desPermute [OF this]
  have pB: "bitsOf pc1 = desPermuteB PC1_TABLE 56 7 (bitsOf key)" and pL: "length pc1 = 7"
    unfolding pc1_def by simp_all
  from desSplit_fold_sim [OF pL]
  have cB: "splitAbs cd = fold (desSplitStepB (bitsOf pc1)) [0..<28] (replicate 28 False, replicate 28 False)"
    and cL: "low28 (fst cd)" "low28 (snd cd)"
    unfolding cd_def by simp_all
  have i0: "keyInv st0" unfolding st0_def keyInv_def using cL by simp
  have a0: "keyAbs st0 = (fst (splitAbs cd), snd (splitAbs cd), replicate 16 (replicate (8 * 6) False))"
    unfolding st0_def keyAbs_def splitAbs_def
    by (simp only: prod.case fst_conv snd_conv map_replicate bitsOf_replicate_0)
  have "keyAbs (fold desKeyRound [0..<16] st0) = fold desKeyRoundB [0..<16] (keyAbs st0)
        \<and> keyInv (fold desKeyRound [0..<16] st0)"
    by (rule fold_sim) (simp_all add: desKeyRound_sim i0)
  then have sB: "keyAbs st = fold desKeyRoundB [0..<16] (keyAbs st0)" and sI: "keyInv st"
    unfolding st_def by simp_all
  have "map bitsOf (snd (snd st)) = snd (snd (keyAbs st))"
    by (cases st) (simp add: keyAbs_def)
  then have "map bitsOf (desKeySchedule key) = desKeyScheduleB (bitsOf key)"
    unfolding ks sB a0 cB pB desKeyScheduleB_def Let_def by simp
  moreover from sI have "length (snd (snd st)) = 16 \<and> (\<forall>k\<in>set (snd (snd st)). length k = 6)"
    by (cases st) (simp add: keyInv_def)
  ultimately show ?thesis unfolding ks by simp
qed


lemma desGetBit_val:
  "q < 8 * length data \<Longrightarrow> desGetBit data (Suc q) = of_bool (bitsOf data ! q)"
  by (simp add: desGetBit_of_bool bitsOf_nth)

lemma nat_test_bit: "(drop_bit n (v::nat) AND 1 \<noteq> 0) = bit v n"
  by (simp add: and_one_eq bit_iff_odd_drop_bit mod_2_eq_odd)

lemma nat_test_bit0: "((v::nat) AND 1 \<noteq> 0) = bit v 0"
  using nat_test_bit [of 0 v] by simp

definition desSboxStepB :: "bool list \<Rightarrow> nat \<Rightarrow> bool list \<Rightarrow> bool list" where
  "desSboxStepB expanded i sboxOut =
     (let b = i * 6;
          row = of_bool (expanded ! b) * 2 + of_bool (expanded ! (b + 5));
          col = of_bool (expanded ! (b + 1)) * 8 + of_bool (expanded ! (b + 2)) * 4
              + of_bool (expanded ! (b + 3)) * 2 + of_bool (expanded ! (b + 4));
          val = S_BOXES ! i ! row ! col;
          ob = i * 4
      in sboxOut[ob := bit val 3, ob + 1 := bit val 2, ob + 2 := bit val 1, ob + 3 := bit val 0])"

lemma desSboxStep_sim:
  assumes i: "i < 8" and le: "length expanded = 6" and lo: "length sboxOut = 4"
  shows "bitsOf (desSboxStep expanded i sboxOut) = desSboxStepB (bitsOf expanded) i (bitsOf sboxOut)
         \<and> length (desSboxStep expanded i sboxOut) = 4"
proof -
  have g: "desGetBit expanded (Suc (i * 6 + k)) = of_bool (bitsOf expanded ! (i * 6 + k))" if "k < 6" for k
    using i le that by (intro desGetBit_val) simp
  have g0: "desGetBit expanded (i * 6 + 1) = of_bool (bitsOf expanded ! (i * 6))"
    using g [of 0] by simp
  have g1: "desGetBit expanded (i * 6 + 1 + 1) = of_bool (bitsOf expanded ! (i * 6 + 1))"
    using g [of 1] by simp
  have g2: "desGetBit expanded (i * 6 + 1 + 2) = of_bool (bitsOf expanded ! (i * 6 + 2))"
    using g [of 2] by simp
  have g3: "desGetBit expanded (i * 6 + 1 + 3) = of_bool (bitsOf expanded ! (i * 6 + 3))"
    using g [of 3] by simp
  have g4: "desGetBit expanded (i * 6 + 1 + 4) = of_bool (bitsOf expanded ! (i * 6 + 4))"
    using g [of 4] by simp
  have g5: "desGetBit expanded (i * 6 + 1 + 5) = of_bool (bitsOf expanded ! (i * 6 + 5))"
    using g [of 5] by simp
  have st: "bitsOf (desSetBit x (Suc (i * 4 + k)) v) = (bitsOf x)[i * 4 + k := (v \<noteq> 0)]"
    if "length x = 4" "k < 4" for x k v
    using i that by (intro bitsOf_desSetBit) simp
  have s0: "bitsOf (desSetBit x (i * 4 + 1) v) = (bitsOf x)[i * 4 := (v \<noteq> 0)]" if "length x = 4" for x v
    using st [OF that, of 0 v] by simp
  have s1: "bitsOf (desSetBit x (i * 4 + 1 + 1) v) = (bitsOf x)[i * 4 + 1 := (v \<noteq> 0)]" if "length x = 4" for x v
    using st [OF that, of 1 v] by simp
  have s2: "bitsOf (desSetBit x (i * 4 + 1 + 2) v) = (bitsOf x)[i * 4 + 2 := (v \<noteq> 0)]" if "length x = 4" for x v
    using st [OF that, of 2 v] by simp
  have s3: "bitsOf (desSetBit x (i * 4 + 1 + 3) v) = (bitsOf x)[i * 4 + 3 := (v \<noteq> 0)]" if "length x = 4" for x v
    using st [OF that, of 3 v] by simp
  define val where "val = S_BOXES ! i
      ! (of_bool (bitsOf expanded ! (i * 6)) * 2 + of_bool (bitsOf expanded ! (i * 6 + 5)))
      ! (of_bool (bitsOf expanded ! (i * 6 + 1)) * 8 + of_bool (bitsOf expanded ! (i * 6 + 2)) * 4
         + of_bool (bitsOf expanded ! (i * 6 + 3)) * 2 + of_bool (bitsOf expanded ! (i * 6 + 4)))"
  define x0 where "x0 = desSetBit sboxOut (i * 4 + 1) (drop_bit 3 val AND 1)"
  define x1 where "x1 = desSetBit x0 (i * 4 + 1 + 1) (drop_bit 2 val AND 1)"
  define x2 where "x2 = desSetBit x1 (i * 4 + 1 + 2) (drop_bit 1 val AND 1)"
  define x3 where "x3 = desSetBit x2 (i * 4 + 1 + 3) (val AND 1)"
  have src: "desSboxStep expanded i sboxOut = x3"
    unfolding desSboxStep_def Let_def g0 g1 g2 g3 g4 g5
    by (simp only: x3_def x2_def x1_def x0_def val_def)
  have tgt: "desSboxStepB (bitsOf expanded) i (bitsOf sboxOut) =
      (bitsOf sboxOut)[i * 4 := bit val 3, i * 4 + 1 := bit val 2, i * 4 + 2 := bit val 1, i * 4 + 3 := bit val 0]"
    unfolding desSboxStepB_def Let_def by (simp only: val_def)
  have l0: "length x0 = 4" unfolding x0_def by (simp only: length_desSetBit lo)
  have l1: "length x1 = 4" unfolding x1_def by (simp only: length_desSetBit l0)
  have l2: "length x2 = 4" unfolding x2_def by (simp only: length_desSetBit l1)
  have l3: "length x3 = 4" unfolding x3_def by (simp only: length_desSetBit l2)
  have b0: "bitsOf x0 = (bitsOf sboxOut)[i * 4 := bit val 3]"
    unfolding x0_def by (simp only: s0 [OF lo] nat_test_bit)
  have b1: "bitsOf x1 = (bitsOf x0)[i * 4 + 1 := bit val 2]"
    unfolding x1_def by (simp only: s1 [OF l0] nat_test_bit)
  have b2: "bitsOf x2 = (bitsOf x1)[i * 4 + 2 := bit val 1]"
    unfolding x2_def by (simp only: s2 [OF l1] nat_test_bit)
  have b3: "bitsOf x3 = (bitsOf x2)[i * 4 + 3 := bit val 0]"
    unfolding x3_def by (simp only: s3 [OF l2] nat_test_bit0)
  show ?thesis
    unfolding src tgt by (simp only: b3 b2 b1 b0 l3 simp_thms)
qed

lemma list6: "length xs = 6 \<Longrightarrow> \<exists>a b c d e f. xs = [a, b, c, d, e, f]"
  by (auto simp add: numeral_eq_Suc length_Suc_conv)

lemma list4: "length xs = 4 \<Longrightarrow> \<exists>a b c d. xs = [a, b, c, d]"
  by (auto simp add: numeral_eq_Suc length_Suc_conv)

lemma xor_fold6:
  assumes "length e = 6" "length (k :: byte list) = 6"
  shows "fold (\<lambda>i e. e[i := e ! i XOR k ! i]) [0..<6] e = map2 (XOR) e k"
proof -
  from list6 [OF assms(1)] obtain e0 e1 e2 e3 e4 e5 where e: "e = [e0, e1, e2, e3, e4, e5]" by blast
  from list6 [OF assms(2)] obtain k0 k1 k2 k3 k4 k5 where k: "k = [k0, k1, k2, k3, k4, k5]" by blast
  have u: "[0..<6] = [0, 1, 2, 3, 4, 5]" by (simp add: upt_rec)
  show ?thesis unfolding e k u by simp
qed

lemma xor_fold4:
  assumes "length l = 4" "length (f :: byte list) = 4"
  shows "fold (\<lambda>i nr. nr[i := l ! i XOR f ! i]) [0..<4] (replicate 4 0) = map2 (XOR) l f"
proof -
  from list4 [OF assms(1)] obtain l0 l1 l2 l3 where l: "l = [l0, l1, l2, l3]" by blast
  from list4 [OF assms(2)] obtain f0 f1 f2 f3 where f: "f = [f0, f1, f2, f3]" by blast
  have u: "[0..<4] = [0, 1, 2, 3]" by (simp add: upt_rec)
  have r: "replicate 4 (0::byte) = [0, 0, 0, 0]" by (simp add: numeral_eq_Suc)
  show ?thesis unfolding l f u r by simp
qed

lemma byteBits_xor: "byteBits (x XOR y) = map2 (\<noteq>) (byteBits x) (byteBits y)"
  by (rule nth_equalityI) (simp_all add: length_byteBits byteBits_nth bit_xor_iff)

lemma bitsOf_map2_xor:
  "length a = length b \<Longrightarrow> bitsOf (map2 (XOR) a b) = map2 (\<noteq>) (bitsOf a) (bitsOf b)"
proof (induction a b rule: list_induct2)
  case Nil
  then show ?case by (simp add: bitsOf_def)
next
  case (Cons x xs y ys)
  then show ?case
    by (simp add: bitsOf_Cons byteBits_xor length_byteBits)
qed


definition desFeistelB :: "bool list \<Rightarrow> bool list \<Rightarrow> bool list" where
  "desFeistelB right subkey =
     (let expanded = desPermuteB E_TABLE 48 6 right;
          expanded' = map2 (\<noteq>) expanded subkey;
          sboxOut = fold (desSboxStepB expanded') [0..<8] (replicate (8 * 4) False)
      in desPermuteB P_TABLE 32 4 sboxOut)"

lemma E_TABLE_ok: "length E_TABLE = 48" "\<forall>p\<in>set E_TABLE. 1 \<le> p \<and> p \<le> 32"
  by (simp_all add: E_TABLE_def)

lemma P_TABLE_ok: "length P_TABLE = 32" "\<forall>p\<in>set P_TABLE. 1 \<le> p \<and> p \<le> 32"
  by (simp_all add: P_TABLE_def)

lemma desSbox_fold_sim:
  assumes "length expanded = 6"
  shows "bitsOf (fold (desSboxStep expanded) [0..<8] (replicate 4 0))
           = fold (desSboxStepB (bitsOf expanded)) [0..<8] (replicate (8 * 4) False)
         \<and> length (fold (desSboxStep expanded) [0..<8] (replicate 4 0)) = 4"
proof -
  have "bitsOf (fold (desSboxStep expanded) [0..<8] (replicate 4 0))
           = fold (desSboxStepB (bitsOf expanded)) [0..<8] (bitsOf (replicate 4 0))
         \<and> length (fold (desSboxStep expanded) [0..<8] (replicate 4 0)) = 4"
    by (rule fold_sim) (simp_all add: desSboxStep_sim assms)
  then show ?thesis by (simp only: bitsOf_replicate_0)
qed

lemma desFeistel_sim:
  assumes "length right = 4" "length subkey = 6"
  shows "bitsOf (desFeistel right subkey) = desFeistelB (bitsOf right) (bitsOf subkey)
         \<and> length (desFeistel right subkey) = 4"
proof -
  define e where "e = desPermute E_TABLE 48 6 right"
  define e' where "e' = fold (\<lambda>i e. e[i := e ! i XOR subkey ! i]) [0..<6] e"
  define sb where "sb = fold (desSboxStep e') [0..<8] (replicate 4 0)"
  have f: "desFeistel right subkey = desPermute P_TABLE 32 4 sb"
    by (simp only: desFeistel_def Let_def e_def e'_def sb_def)
  have "(48::nat) \<le> 8 * 6" "48 \<le> length E_TABLE" "\<forall>p\<in>set E_TABLE. 1 \<le> p \<and> p \<le> 8 * length right"
    using E_TABLE_ok assms by simp_all
  from bitsOf_desPermute [OF this]
  have eB: "bitsOf e = desPermuteB E_TABLE 48 6 (bitsOf right)" and eL: "length e = 6"
    unfolding e_def by simp_all
  have e'x: "e' = map2 (XOR) e subkey"
    unfolding e'_def by (rule xor_fold6 [OF eL assms(2)])
  have e'B: "bitsOf e' = map2 (\<noteq>) (bitsOf e) (bitsOf subkey)"
    unfolding e'x using eL assms(2) by (simp add: bitsOf_map2_xor)
  have e'L: "length e' = 6" unfolding e'x using eL assms(2) by simp
  from desSbox_fold_sim [OF e'L]
  have sB: "bitsOf sb = fold (desSboxStepB (bitsOf e')) [0..<8] (replicate (8 * 4) False)"
    and sL: "length sb = 4"
    unfolding sb_def by simp_all
  have "(32::nat) \<le> 8 * 4" "32 \<le> length P_TABLE" "\<forall>p\<in>set P_TABLE. 1 \<le> p \<and> p \<le> 8 * length sb"
    using P_TABLE_ok sL by simp_all
  from bitsOf_desPermute [OF this]
  show ?thesis
    unfolding f desFeistelB_def Let_def by (simp only: sB e'B eB)
qed

definition desRoundB :: "bool list list \<Rightarrow> nat \<Rightarrow> bool list \<times> bool list \<Rightarrow> bool list \<times> bool list" where
  "desRoundB subkeys round lr =
     (case lr of (left, right) \<Rightarrow>
        (right, map2 (\<noteq>) left (desFeistelB right (subkeys ! round))))"

definition lrAbs :: "byte list \<times> byte list \<Rightarrow> bool list \<times> bool list" where
  "lrAbs lr = (bitsOf (fst lr), bitsOf (snd lr))"

definition lrInv :: "byte list \<times> byte list \<Rightarrow> bool" where
  "lrInv lr = (length (fst lr) = 4 \<and> length (snd lr) = 4)"

lemma desRound_sim:
  assumes "round < 16" "length subkeys = 16" "\<forall>k\<in>set subkeys. length k = 6" "lrInv lr"
  shows "lrAbs (desRound subkeys round lr) = desRoundB (map bitsOf subkeys) round (lrAbs lr)
         \<and> lrInv (desRound subkeys round lr)"
proof -
  obtain l r where lr: "lr = (l, r)" by (cases lr)
  from assms(4) lr have ll: "length l = 4" and lr4: "length r = 4" by (simp_all add: lrInv_def)
  from assms(1,2,3) have kl: "length (subkeys ! round) = 6" by simp
  define f where "f = desFeistel r (subkeys ! round)"
  from desFeistel_sim [OF lr4 kl]
  have fB: "bitsOf f = desFeistelB (bitsOf r) (bitsOf (subkeys ! round))" and fL: "length f = 4"
    unfolding f_def by simp_all
  have nr: "fold (\<lambda>i nr. nr[i := l ! i XOR f ! i]) [0..<4] (replicate 4 0) = map2 (XOR) l f"
    by (rule xor_fold4 [OF ll fL])
  have rd: "desRound subkeys round (l, r) = (r, map2 (XOR) l f)"
    unfolding desRound_def by (simp only: prod.case Let_def f_def [symmetric] nr)
  have nB: "bitsOf (map2 (XOR) l f) = map2 (\<noteq>) (bitsOf l) (bitsOf f)"
    using ll fL by (simp add: bitsOf_map2_xor)
  have km: "map bitsOf subkeys ! round = bitsOf (subkeys ! round)"
    using assms(1,2) by simp
  show ?thesis
    unfolding lr rd lrAbs_def lrInv_def desRoundB_def
    using ll lr4 fL by (simp add: nB fB km)
qed

lemma bitsOf_append: "bitsOf (a @ b) = bitsOf a @ bitsOf b"
  by (simp add: bitsOf_def)

lemma bitsOf_take: "bitsOf (take n xs) = take (8 * n) (bitsOf xs)"
proof (induction xs arbitrary: n)
  case Nil
  then show ?case by (simp add: bitsOf_def)
next
  case (Cons w ws)
  show ?case
  proof (cases n)
    case 0
    then show ?thesis by (simp add: bitsOf_def)
  next
    case (Suc m)
    have "8 * Suc m - 8 = 8 * m" by simp
    then show ?thesis using Cons [of m] Suc
      by (simp add: bitsOf_Cons length_byteBits)
  qed
qed

lemma bitsOf_drop: "bitsOf (drop n xs) = drop (8 * n) (bitsOf xs)"
proof (induction xs arbitrary: n)
  case Nil
  then show ?case by (simp add: bitsOf_def)
next
  case (Cons w ws)
  show ?case
  proof (cases n)
    case 0
    then show ?thesis by simp
  next
    case (Suc m)
    have "8 * Suc m - 8 = 8 * m" by simp
    then show ?thesis using Cons [of m] Suc
      by (simp add: bitsOf_Cons length_byteBits)
  qed
qed

definition desEncryptBlockB :: "bool list \<Rightarrow> bool list \<Rightarrow> bool list" where
  "desEncryptBlockB key input =
     (let subkeys = desKeyScheduleB key;
          ip = desPermuteB IP_TABLE 64 8 input;
          lr = fold (desRoundB subkeys) [0..<16] (take 32 ip, take 32 (drop 32 ip));
          preOutput = snd lr @ fst lr
      in desPermuteB FP_TABLE 64 8 preOutput)"

lemma IP_TABLE_ok: "length IP_TABLE = 64" "\<forall>p\<in>set IP_TABLE. 1 \<le> p \<and> p \<le> 64"
  by (simp_all add: IP_TABLE_def)

lemma FP_TABLE_ok: "length FP_TABLE = 64" "\<forall>p\<in>set FP_TABLE. 1 \<le> p \<and> p \<le> 64"
  by (simp_all add: FP_TABLE_def)

lemma desEncryptBlock_sim:
  assumes "length key = 8" "length input = 8"
  shows "bitsOf (desEncryptBlock key input) = desEncryptBlockB (bitsOf key) (bitsOf input)
         \<and> length (desEncryptBlock key input) = 8"
proof -
  define sk where "sk = desKeySchedule key"
  define ip where "ip = desPermute IP_TABLE 64 8 input"
  define lr where "lr = fold (desRound sk) [0..<16] (take 4 ip, take 4 (drop 4 ip))"
  define pre where "pre = snd lr @ fst lr"
  have enc: "desEncryptBlock key input = desPermute FP_TABLE 64 8 pre"
    by (simp only: desEncryptBlock_def Let_def sk_def ip_def lr_def pre_def)
  from desKeySchedule_sim [OF assms(1)]
  have skB: "map bitsOf sk = desKeyScheduleB (bitsOf key)"
    and skL: "length sk = 16" "\<forall>k\<in>set sk. length k = 6"
    unfolding sk_def by simp_all
  have "(64::nat) \<le> 8 * 8" "64 \<le> length IP_TABLE" "\<forall>p\<in>set IP_TABLE. 1 \<le> p \<and> p \<le> 8 * length input"
    using IP_TABLE_ok assms by simp_all
  from bitsOf_desPermute [OF this]
  have ipB: "bitsOf ip = desPermuteB IP_TABLE 64 8 (bitsOf input)" and ipL: "length ip = 8"
    unfolding ip_def by simp_all
  have i0: "lrInv (take 4 ip, take 4 (drop 4 ip))"
    using ipL by (simp add: lrInv_def)
  have a0: "lrAbs (take 4 ip, take 4 (drop 4 ip)) = (take 32 (bitsOf ip), take 32 (drop 32 (bitsOf ip)))"
    by (simp add: lrAbs_def bitsOf_take bitsOf_drop)
  have "lrAbs (fold (desRound sk) [0..<16] (take 4 ip, take 4 (drop 4 ip)))
          = fold (desRoundB (map bitsOf sk)) [0..<16] (lrAbs (take 4 ip, take 4 (drop 4 ip)))
        \<and> lrInv (fold (desRound sk) [0..<16] (take 4 ip, take 4 (drop 4 ip)))"
    by (rule fold_sim) (simp_all add: desRound_sim skL i0)
  then have lrB: "lrAbs lr = fold (desRoundB (map bitsOf sk)) [0..<16] (take 32 (bitsOf ip), take 32 (drop 32 (bitsOf ip)))"
    and lrI: "lrInv lr"
    unfolding lr_def a0 by simp_all
  have preB: "bitsOf pre = snd (lrAbs lr) @ fst (lrAbs lr)"
    unfolding pre_def by (simp add: bitsOf_append lrAbs_def)
  have preL: "length pre = 8" unfolding pre_def using lrI by (simp add: lrInv_def)
  have "(64::nat) \<le> 8 * 8" "64 \<le> length FP_TABLE" "\<forall>p\<in>set FP_TABLE. 1 \<le> p \<and> p \<le> 8 * length pre"
    using FP_TABLE_ok preL by simp_all
  from bitsOf_desPermute [OF this]
  show ?thesis
    unfolding enc desEncryptBlockB_def Let_def by (simp only: preB lrB skB ipB)
qed


lemma if_update_True: "(if b then xs[i := True] else xs) = xs[i := (b \<or> xs ! i)]"
  by (cases b) simp_all

lemma desPermuteB_fold:
  "n \<le> N \<Longrightarrow>
   fold (desPermStepB tab src) [0..<n] (replicate N False)
     = map (\<lambda>i. src ! (tab ! i - 1)) [0..<n] @ replicate (N - n) False"
proof (induction n)
  case 0
  then show ?case by simp
next
  case (Suc n)
  then have ih: "fold (desPermStepB tab src) [0..<n] (replicate N False)
     = map (\<lambda>i. src ! (tab ! i - 1)) [0..<n] @ replicate (N - n) False" by simp
  from Suc.prems have r: "replicate (N - n) False = False # replicate (N - Suc n) False"
    by (cases "N - n") simp_all
  have l: "length (map (\<lambda>i. src ! (tab ! i - 1)) [0..<n]) = n" by simp
  show ?case
    unfolding upt_Suc_append [OF le0] fold_append o_apply ih fold_simps id_apply r
    by (simp add: desPermStepB_def list_update_append l del: replicate_Suc)
qed

lemma desPermuteB_map:
  assumes "n = length tab" "n = 8 * m"
  shows "desPermuteB tab n m src = map (\<lambda>p. src ! (p - 1)) tab"
proof -
  have "map (\<lambda>i. src ! (tab ! i - 1)) [0..<length tab] = map (\<lambda>p. src ! (p - 1)) (map (\<lambda>i. tab ! i) [0..<length tab])"
    by simp
  also have "\<dots> = map (\<lambda>p. src ! (p - 1)) tab" by (simp only: map_nth)
  finally show ?thesis
    unfolding desPermuteB_def using assms desPermuteB_fold [of n "8 * m" tab src] by simp
qed

lemma IP_TABLE_eval:
  "desPermuteB IP_TABLE 64 8
    [x1, x2, x3, x4, x5, x6, x7, x8, x9, x10, x11, x12, x13, x14, x15, x16,
     x17, x18, x19, x20, x21, x22, x23, x24, x25, x26, x27, x28, x29, x30, x31, x32,
     x33, x34, x35, x36, x37, x38, x39, x40, x41, x42, x43, x44, x45, x46, x47, x48,
     x49, x50, x51, x52, x53, x54, x55, x56, x57, x58, x59, x60, x61, x62, x63, x64]
   = [x58, x50, x42, x34, x26, x18, x10, x2, x60, x52, x44, x36, x28, x20, x12, x4,
     x62, x54, x46, x38, x30, x22, x14, x6, x64, x56, x48, x40, x32, x24, x16, x8,
     x57, x49, x41, x33, x25, x17, x9, x1, x59, x51, x43, x35, x27, x19, x11, x3,
     x61, x53, x45, x37, x29, x21, x13, x5, x63, x55, x47, x39, x31, x23, x15, x7]"
  by (simp add: desPermuteB_map IP_TABLE_def)

lemma FP_TABLE_eval:
  "desPermuteB FP_TABLE 64 8
    [x1, x2, x3, x4, x5, x6, x7, x8, x9, x10, x11, x12, x13, x14, x15, x16,
     x17, x18, x19, x20, x21, x22, x23, x24, x25, x26, x27, x28, x29, x30, x31, x32,
     x33, x34, x35, x36, x37, x38, x39, x40, x41, x42, x43, x44, x45, x46, x47, x48,
     x49, x50, x51, x52, x53, x54, x55, x56, x57, x58, x59, x60, x61, x62, x63, x64]
   = [x40, x8, x48, x16, x56, x24, x64, x32, x39, x7, x47, x15, x55, x23, x63, x31,
     x38, x6, x46, x14, x54, x22, x62, x30, x37, x5, x45, x13, x53, x21, x61, x29,
     x36, x4, x44, x12, x52, x20, x60, x28, x35, x3, x43, x11, x51, x19, x59, x27,
     x34, x2, x42, x10, x50, x18, x58, x26, x33, x1, x41, x9, x49, x17, x57, x25]"
  by (simp add: desPermuteB_map FP_TABLE_def)

lemma E_TABLE_eval:
  "desPermuteB E_TABLE 48 6
    [x1, x2, x3, x4, x5, x6, x7, x8, x9, x10, x11, x12, x13, x14, x15, x16,
     x17, x18, x19, x20, x21, x22, x23, x24, x25, x26, x27, x28, x29, x30, x31, x32]
   = [x32, x1, x2, x3, x4, x5, x4, x5, x6, x7, x8, x9, x8, x9, x10, x11,
     x12, x13, x12, x13, x14, x15, x16, x17, x16, x17, x18, x19, x20, x21, x20, x21,
     x22, x23, x24, x25, x24, x25, x26, x27, x28, x29, x28, x29, x30, x31, x32, x1]"
  by (simp add: desPermuteB_map E_TABLE_def)

lemma P_TABLE_eval:
  "desPermuteB P_TABLE 32 4
    [x1, x2, x3, x4, x5, x6, x7, x8, x9, x10, x11, x12, x13, x14, x15, x16,
     x17, x18, x19, x20, x21, x22, x23, x24, x25, x26, x27, x28, x29, x30, x31, x32]
   = [x16, x7, x20, x21, x29, x12, x28, x17, x1, x15, x23, x26, x5, x18, x31, x10,
     x2, x8, x24, x14, x32, x27, x3, x9, x19, x13, x30, x6, x22, x11, x4, x25]"
  by (simp add: desPermuteB_map P_TABLE_def)

lemma PC1_TABLE_eval:
  "desPermuteB PC1_TABLE 56 7
    [x1, x2, x3, x4, x5, x6, x7, x8, x9, x10, x11, x12, x13, x14, x15, x16,
     x17, x18, x19, x20, x21, x22, x23, x24, x25, x26, x27, x28, x29, x30, x31, x32,
     x33, x34, x35, x36, x37, x38, x39, x40, x41, x42, x43, x44, x45, x46, x47, x48,
     x49, x50, x51, x52, x53, x54, x55, x56, x57, x58, x59, x60, x61, x62, x63, x64]
   = [x57, x49, x41, x33, x25, x17, x9, x1, x58, x50, x42, x34, x26, x18, x10, x2,
     x59, x51, x43, x35, x27, x19, x11, x3, x60, x52, x44, x36, x63, x55, x47, x39,
     x31, x23, x15, x7, x62, x54, x46, x38, x30, x22, x14, x6, x61, x53, x45, x37,
     x29, x21, x13, x5, x28, x20, x12, x4]"
  by (simp add: desPermuteB_map PC1_TABLE_def)

lemma PC2_TABLE_eval:
  "desPermuteB PC2_TABLE 48 6
    [x1, x2, x3, x4, x5, x6, x7, x8, x9, x10, x11, x12, x13, x14, x15, x16,
     x17, x18, x19, x20, x21, x22, x23, x24, x25, x26, x27, x28, x29, x30, x31, x32,
     x33, x34, x35, x36, x37, x38, x39, x40, x41, x42, x43, x44, x45, x46, x47, x48,
     x49, x50, x51, x52, x53, x54, x55, x56]
   = [x14, x17, x11, x24, x1, x5, x3, x28, x15, x6, x21, x10, x23, x19, x12, x4,
     x26, x8, x16, x7, x27, x20, x13, x2, x41, x52, x31, x37, x47, x55, x30, x40,
     x51, x45, x33, x48, x44, x49, x39, x56, x34, x53, x46, x42, x50, x36, x29, x32]"
  by (simp add: desPermuteB_map PC2_TABLE_def)

lemma upt_8: "[0..<8] = [0, 1, 2, 3, 4, 5, 6, 7]"
  by (simp add: upt_rec)

lemma upt_16: "[0..<16] = [0, 1, 2, 3, 4, 5, 6, 7, 8, 9, 10, 11, 12, 13, 14, 15]"
  by (simp add: upt_rec)

lemma upt_28: "[0..<28] = [0, 1, 2, 3, 4, 5, 6, 7, 8, 9, 10, 11, 12, 13] @
    [14, 15, 16, 17, 18, 19, 20, 21, 22, 23, 24, 25, 26, 27]"
  by (simp add: upt_rec)

lemma replicate_12: "replicate 12 x = [x, x, x, x, x, x, x, x, x, x, x, x]"
  by (simp add: numeral_eq_Suc)

lemma replicate_16: "replicate 16 x = [x, x, x, x, x, x, x, x, x, x, x, x, x, x, x, x]"
  by (simp add: numeral_eq_Suc)

lemma replicate_28: "replicate 28 x = replicate 16 x @ replicate 12 x"
  by (simp flip: replicate_add)

lemma replicate_32: "replicate 32 x = replicate 16 x @ replicate 16 x"
  by (simp flip: replicate_add)

lemma replicate_48: "replicate 48 x = replicate 32 x @ replicate 16 x"
  by (simp flip: replicate_add)

lemma replicate_56: "replicate 56 x = replicate 28 x @ replicate 28 x"
  by (simp flip: replicate_add)

lemma replicate_64: "replicate 64 x = replicate 32 x @ replicate 32 x"
  by (simp flip: replicate_add)

lemmas rep_simps =
  replicate_64 replicate_56 replicate_48 replicate_32 replicate_28 replicate_16 replicate_12
  append_Cons append_Nil

lemma desSplitStepB_alt:
  "desSplitStepB pc1 i cd =
     ((fst cd)[i := (pc1 ! i \<or> fst cd ! i)], (snd cd)[i := (pc1 ! (i + 28) \<or> snd cd ! i)])"
  by (simp add: desSplitStepB_def if_update_True)

lemma desJoinStepB_alt:
  "desJoinStepB c d i cd =
     (cd[i := (c ! i \<or> cd ! i)])[i + 28 := (d ! i \<or> (cd[i := (c ! i \<or> cd ! i)]) ! (i + 28))]"
  by (simp add: desJoinStepB_def if_update_True Let_def)

lemma desSplit_eval:
  "fold (desSplitStepB
    [p1, p2, p3, p4, p5, p6, p7, p8, p9, p10, p11, p12, p13, p14, p15, p16,
     p17, p18, p19, p20, p21, p22, p23, p24, p25, p26, p27, p28, p29, p30, p31, p32,
     p33, p34, p35, p36, p37, p38, p39, p40, p41, p42, p43, p44, p45, p46, p47, p48,
     p49, p50, p51, p52, p53, p54, p55, p56])
    [0..<28] (replicate 28 False, replicate 28 False)
   = ([p1, p2, p3, p4, p5, p6, p7, p8, p9, p10, p11, p12, p13, p14, p15, p16,
     p17, p18, p19, p20, p21, p22, p23, p24, p25, p26, p27, p28],
      [p29, p30, p31, p32, p33, p34, p35, p36, p37, p38, p39, p40, p41, p42, p43, p44,
     p45, p46, p47, p48, p49, p50, p51, p52, p53, p54, p55, p56])"
  unfolding upt_28 rep_simps by (simp add: desSplitStepB_alt)

lemma desJoin_eval:
  "fold (desJoinStepB
    [c1, c2, c3, c4, c5, c6, c7, c8, c9, c10, c11, c12, c13, c14, c15, c16,
     c17, c18, c19, c20, c21, c22, c23, c24, c25, c26, c27, c28]
    [d1, d2, d3, d4, d5, d6, d7, d8, d9, d10, d11, d12, d13, d14, d15, d16,
     d17, d18, d19, d20, d21, d22, d23, d24, d25, d26, d27, d28])
    [0..<28] (replicate 56 False)
   = [c1, c2, c3, c4, c5, c6, c7, c8, c9, c10, c11, c12, c13, c14, c15, c16,
     c17, c18, c19, c20, c21, c22, c23, c24, c25, c26, c27, c28, d1, d2, d3, d4,
     d5, d6, d7, d8, d9, d10, d11, d12, d13, d14, d15, d16, d17, d18, d19, d20,
     d21, d22, d23, d24, d25, d26, d27, d28]"
  unfolding upt_28 rep_simps by (simp add: desJoinStepB_alt)

lemma rotate_1: "rotate 1 xs = rotate1 xs"
  by simp

lemma rotate_2: "rotate 2 xs = rotate1 (rotate1 xs)"
  by (simp add: numeral_2_eq_2)

definition nib4 :: "nat \<Rightarrow> bool list" where
  "nib4 val = [bit val 3, bit val 2, bit val 1, bit val 0]"

definition sboxNib :: "nat \<Rightarrow> bool \<Rightarrow> bool \<Rightarrow> bool \<Rightarrow> bool \<Rightarrow> bool \<Rightarrow> bool \<Rightarrow> bool list" where
  "sboxNib i b1 b2 b3 b4 b5 b6 =
     nib4 (S_BOXES ! i ! (of_bool b1 * 2 + of_bool b6)
             ! (of_bool b2 * 8 + of_bool b3 * 4 + of_bool b4 * 2 + of_bool b5))"

lemma desSbox_eval:
  "fold (desSboxStepB
    [x1, x2, x3, x4, x5, x6, x7, x8, x9, x10, x11, x12, x13, x14, x15, x16,
     x17, x18, x19, x20, x21, x22, x23, x24, x25, x26, x27, x28, x29, x30, x31, x32,
     x33, x34, x35, x36, x37, x38, x39, x40, x41, x42, x43, x44, x45, x46, x47, x48])
    [0..<8] (replicate 32 False)
   = sboxNib 0 x1 x2 x3 x4 x5 x6 @
     sboxNib 1 x7 x8 x9 x10 x11 x12 @
     sboxNib 2 x13 x14 x15 x16 x17 x18 @
     sboxNib 3 x19 x20 x21 x22 x23 x24 @
     sboxNib 4 x25 x26 x27 x28 x29 x30 @
     sboxNib 5 x31 x32 x33 x34 x35 x36 @
     sboxNib 6 x37 x38 x39 x40 x41 x42 @
     sboxNib 7 x43 x44 x45 x46 x47 x48"
  unfolding upt_8 rep_simps by (simp add: desSboxStepB_def Let_def sboxNib_def nib4_def)

lemma S_BOXES_nth:
  "S_BOXES ! 0 =
    [[14, 4, 13, 1, 2, 15, 11, 8, 3, 10, 6, 12, 5, 9, 0, 7],
     [0, 15, 7, 4, 14, 2, 13, 1, 10, 6, 12, 11, 9, 5, 3, 8],
     [4, 1, 14, 8, 13, 6, 2, 11, 15, 12, 9, 7, 3, 10, 5, 0],
     [15, 12, 8, 2, 4, 9, 1, 7, 5, 11, 3, 14, 10, 0, 6, 13]]"
  "S_BOXES ! Suc 0 =
    [[15, 1, 8, 14, 6, 11, 3, 4, 9, 7, 2, 13, 12, 0, 5, 10],
     [3, 13, 4, 7, 15, 2, 8, 14, 12, 0, 1, 10, 6, 9, 11, 5],
     [0, 14, 7, 11, 10, 4, 13, 1, 5, 8, 12, 6, 9, 3, 2, 15],
     [13, 8, 10, 1, 3, 15, 4, 2, 11, 6, 7, 12, 0, 5, 14, 9]]"
  "S_BOXES ! 2 =
    [[10, 0, 9, 14, 6, 3, 15, 5, 1, 13, 12, 7, 11, 4, 2, 8],
     [13, 7, 0, 9, 3, 4, 6, 10, 2, 8, 5, 14, 12, 11, 15, 1],
     [13, 6, 4, 9, 8, 15, 3, 0, 11, 1, 2, 12, 5, 10, 14, 7],
     [1, 10, 13, 0, 6, 9, 8, 7, 4, 15, 14, 3, 11, 5, 2, 12]]"
  "S_BOXES ! 3 =
    [[7, 13, 14, 3, 0, 6, 9, 10, 1, 2, 8, 5, 11, 12, 4, 15],
     [13, 8, 11, 5, 6, 15, 0, 3, 4, 7, 2, 12, 1, 10, 14, 9],
     [10, 6, 9, 0, 12, 11, 7, 13, 15, 1, 3, 14, 5, 2, 8, 4],
     [3, 15, 0, 6, 10, 1, 13, 8, 9, 4, 5, 11, 12, 7, 2, 14]]"
  "S_BOXES ! 4 =
    [[2, 12, 4, 1, 7, 10, 11, 6, 8, 5, 3, 15, 13, 0, 14, 9],
     [14, 11, 2, 12, 4, 7, 13, 1, 5, 0, 15, 10, 3, 9, 8, 6],
     [4, 2, 1, 11, 10, 13, 7, 8, 15, 9, 12, 5, 6, 3, 0, 14],
     [11, 8, 12, 7, 1, 14, 2, 13, 6, 15, 0, 9, 10, 4, 5, 3]]"
  "S_BOXES ! 5 =
    [[12, 1, 10, 15, 9, 2, 6, 8, 0, 13, 3, 4, 14, 7, 5, 11],
     [10, 15, 4, 2, 7, 12, 9, 5, 6, 1, 13, 14, 0, 11, 3, 8],
     [9, 14, 15, 5, 2, 8, 12, 3, 7, 0, 4, 10, 1, 13, 11, 6],
     [4, 3, 2, 12, 9, 5, 15, 10, 11, 14, 1, 7, 6, 0, 8, 13]]"
  "S_BOXES ! 6 =
    [[4, 11, 2, 14, 15, 0, 8, 13, 3, 12, 9, 7, 5, 10, 6, 1],
     [13, 0, 11, 7, 4, 9, 1, 10, 14, 3, 5, 12, 2, 15, 8, 6],
     [1, 4, 11, 13, 12, 3, 7, 14, 10, 15, 6, 8, 0, 5, 9, 2],
     [6, 11, 13, 8, 1, 4, 10, 7, 9, 5, 0, 15, 14, 2, 3, 12]]"
  "S_BOXES ! 7 =
    [[13, 2, 8, 4, 6, 15, 11, 1, 10, 9, 3, 14, 5, 0, 12, 7],
     [1, 15, 13, 8, 10, 3, 7, 4, 12, 5, 6, 11, 0, 14, 9, 2],
     [7, 11, 4, 1, 9, 12, 14, 2, 0, 6, 10, 13, 15, 3, 5, 8],
     [2, 1, 14, 7, 4, 10, 8, 13, 15, 12, 9, 0, 3, 5, 6, 11]]"
  by (simp_all add: S_BOXES_def)

definition sel4 :: "bool \<Rightarrow> bool \<Rightarrow> 'a list \<Rightarrow> 'a" where
  "sel4 a b xs = xs ! (of_bool a * 2 + of_bool b)"

definition sel16 :: "bool \<Rightarrow> bool \<Rightarrow> bool \<Rightarrow> bool \<Rightarrow> 'a list \<Rightarrow> 'a" where
  "sel16 a b c d xs = xs ! (of_bool a * 8 + of_bool b * 4 + of_bool c * 2 + of_bool d)"

lemma sel4_eval:
  "sel4 False False [r0, r1, r2, r3] = r0"
  "sel4 False True [r0, r1, r2, r3] = r1"
  "sel4 True False [r0, r1, r2, r3] = r2"
  "sel4 True True [r0, r1, r2, r3] = r3"
  by (simp_all add: sel4_def)

lemma sel16_eval:
  "sel16 False False False False [c0, c1, c2, c3, c4, c5, c6, c7, c8, c9, c10, c11, c12, c13, c14, c15] = c0"
  "sel16 False False False True [c0, c1, c2, c3, c4, c5, c6, c7, c8, c9, c10, c11, c12, c13, c14, c15] = c1"
  "sel16 False False True False [c0, c1, c2, c3, c4, c5, c6, c7, c8, c9, c10, c11, c12, c13, c14, c15] = c2"
  "sel16 False False True True [c0, c1, c2, c3, c4, c5, c6, c7, c8, c9, c10, c11, c12, c13, c14, c15] = c3"
  "sel16 False True False False [c0, c1, c2, c3, c4, c5, c6, c7, c8, c9, c10, c11, c12, c13, c14, c15] = c4"
  "sel16 False True False True [c0, c1, c2, c3, c4, c5, c6, c7, c8, c9, c10, c11, c12, c13, c14, c15] = c5"
  "sel16 False True True False [c0, c1, c2, c3, c4, c5, c6, c7, c8, c9, c10, c11, c12, c13, c14, c15] = c6"
  "sel16 False True True True [c0, c1, c2, c3, c4, c5, c6, c7, c8, c9, c10, c11, c12, c13, c14, c15] = c7"
  "sel16 True False False False [c0, c1, c2, c3, c4, c5, c6, c7, c8, c9, c10, c11, c12, c13, c14, c15] = c8"
  "sel16 True False False True [c0, c1, c2, c3, c4, c5, c6, c7, c8, c9, c10, c11, c12, c13, c14, c15] = c9"
  "sel16 True False True False [c0, c1, c2, c3, c4, c5, c6, c7, c8, c9, c10, c11, c12, c13, c14, c15] = c10"
  "sel16 True False True True [c0, c1, c2, c3, c4, c5, c6, c7, c8, c9, c10, c11, c12, c13, c14, c15] = c11"
  "sel16 True True False False [c0, c1, c2, c3, c4, c5, c6, c7, c8, c9, c10, c11, c12, c13, c14, c15] = c12"
  "sel16 True True False True [c0, c1, c2, c3, c4, c5, c6, c7, c8, c9, c10, c11, c12, c13, c14, c15] = c13"
  "sel16 True True True False [c0, c1, c2, c3, c4, c5, c6, c7, c8, c9, c10, c11, c12, c13, c14, c15] = c14"
  "sel16 True True True True [c0, c1, c2, c3, c4, c5, c6, c7, c8, c9, c10, c11, c12, c13, c14, c15] = c15"
  by (simp_all add: sel16_def)

lemma nib4_eval:
  "nib4 0 = [False, False, False, False]"
  "nib4 1 = [False, False, False, True]"
  "nib4 2 = [False, False, True, False]"
  "nib4 3 = [False, False, True, True]"
  "nib4 4 = [False, True, False, False]"
  "nib4 5 = [False, True, False, True]"
  "nib4 6 = [False, True, True, False]"
  "nib4 7 = [False, True, True, True]"
  "nib4 8 = [True, False, False, False]"
  "nib4 9 = [True, False, False, True]"
  "nib4 10 = [True, False, True, False]"
  "nib4 11 = [True, False, True, True]"
  "nib4 12 = [True, True, False, False]"
  "nib4 13 = [True, True, False, True]"
  "nib4 14 = [True, True, True, False]"
  "nib4 15 = [True, True, True, True]"
  "nib4 (Suc 0) = [False, False, False, True]"
  by (simp_all add: nib4_def bit_iff_odd)

lemma sboxNib_alt:
  "sboxNib i b1 b2 b3 b4 b5 b6 = nib4 (sel16 b2 b3 b4 b5 (sel4 b1 b6 (S_BOXES ! i)))"
  by (simp add: sboxNib_def sel4_def sel16_def)

definition ksRoundsB :: "bool list \<times> bool list \<Rightarrow> bool list list" where
  "ksRoundsB cd = snd (snd (fold desKeyRoundB [0..<16] (fst cd, snd cd, replicate 16 (replicate 48 False))))"

lemma desKeyScheduleB_alt:
  "desKeyScheduleB key =
     ksRoundsB (fold (desSplitStepB (desPermuteB PC1_TABLE 56 7 key)) [0..<28] (replicate 28 False, replicate 28 False))"
  by (simp add: desKeyScheduleB_def ksRoundsB_def Let_def)

definition keyRoundB2 :: "nat \<Rightarrow> bool list \<Rightarrow> bool list \<Rightarrow> bool list list \<Rightarrow> bool list \<times> bool list \<times> bool list list" where
  "keyRoundB2 round c d sk =
     (c, d, sk[round := desPermuteB PC2_TABLE 48 6 (fold (desJoinStepB c d) [0..<28] (replicate 56 False))])"

lemma desKeyRoundB_alt:
  "desKeyRoundB round (c, d, sk) =
     keyRoundB2 round (rotate (KEY_SHIFTS ! round) c) (rotate (KEY_SHIFTS ! round) d) sk"
  by (simp add: desKeyRoundB_def keyRoundB2_def Let_def)

lemma desFeistelB_alt:
  "desFeistelB right subkey =
     desPermuteB P_TABLE 32 4
       (fold (desSboxStepB (map2 (\<noteq>) (desPermuteB E_TABLE 48 6 right) subkey)) [0..<8] (replicate 32 False))"
  by (simp add: desFeistelB_def Let_def)

lemma desRoundB_alt:
  "desRoundB subkeys round (l, r) = (r, map2 (\<noteq>) l (desFeistelB r (subkeys ! round)))"
  by (simp add: desRoundB_def)

definition splitLR :: "bool list \<Rightarrow> bool list \<times> bool list" where
  "splitLR ip = (take 32 ip, take 32 (drop 32 ip))"

definition encFinalB :: "bool list \<times> bool list \<Rightarrow> bool list" where
  "encFinalB lr = desPermuteB FP_TABLE 64 8 (snd lr @ fst lr)"

lemma desEncryptBlockB_alt:
  "desEncryptBlockB key input =
     encFinalB (fold (desRoundB (desKeyScheduleB key)) [0..<16] (splitLR (desPermuteB IP_TABLE 64 8 input)))"
  by (simp add: desEncryptBlockB_def splitLR_def encFinalB_def Let_def)

lemmas des_key_simps =
  desKeyScheduleB_alt ksRoundsB_def desKeyRoundB_alt keyRoundB2_def
  PC1_TABLE_eval PC2_TABLE_eval desSplit_eval desJoin_eval upt_16 replicate_16
  KEY_SHIFTS_def rotate_1 rotate_2

lemmas des_block_simps =
  desEncryptBlockB_alt desRoundB_alt desFeistelB_alt splitLR_def encFinalB_def
  IP_TABLE_eval FP_TABLE_eval E_TABLE_eval P_TABLE_eval desSbox_eval upt_16
  sboxNib_alt nib4_eval sel4_eval sel16_eval S_BOXES_nth

lemma byteBits_inj: "byteBits a = byteBits b \<Longrightarrow> a = b"
proof (rule bit_eqI)
  fix n assume eq: "byteBits a = byteBits b"
  show "bit a n = bit b n"
  proof (cases "n < 8")
    case True
    then have "7 - n < 8" "7 - (7 - n) = n" by simp_all
    with byteBits_nth [of "7 - n" a] byteBits_nth [of "7 - n" b] eq show ?thesis by simp
  next
    case False
    then have "\<not> bit a n" "\<not> bit b n" by (auto dest: bit_imp_le_length)
    then show ?thesis by simp
  qed
qed

lemma bitsOf_inj: "length a = length b \<Longrightarrow> bitsOf a = bitsOf b \<Longrightarrow> a = b"
proof (induction a b rule: list_induct2)
  case Nil
  then show ?case by simp
next
  case (Cons x xs y ys)
  from Cons.prems have "byteBits x @ bitsOf xs = byteBits y @ bitsOf ys"
    by (simp only: bitsOf_Cons)
  then have "byteBits x = byteBits y" "bitsOf xs = bitsOf ys"
    by (simp_all add: length_byteBits)
  then show ?case using Cons.IH byteBits_inj by simp
qed


lemma bitsOf_0000000000000000:
  "bitsOf [0x00, 0x00, 0x00, 0x00, 0x00, 0x00, 0x00, 0x00]
   = (replicate 64 False)"
  unfolding rep_simps by (simp add: bitsOf_def byteBits_def upt_8)

lemma bitsOf_8CA64DE9C1B123A7:
  "bitsOf [0x8C, 0xA6, 0x4D, 0xE9, 0xC1, 0xB1, 0x23, 0xA7]
   = [True, False, False, False, True, True, False, False,
     True, False, True, False, False, True, True, False,
     False, True, False, False, True, True, False, True,
     True, True, True, False, True, False, False, True,
     True, True, False, False, False, False, False, True,
     True, False, True, True, False, False, False, True,
     False, False, True, False, False, False, True, True,
     True, False, True, False, False, True, True, True]"
  unfolding rep_simps by (simp add: bitsOf_def byteBits_def upt_8)

lemma desKeyScheduleB_0000000000000000:
  "desKeyScheduleB
    (replicate 64 False)
   = (replicate 16 (replicate 48 False))"
  unfolding rep_simps by (simp add: des_key_simps)

lemma desB_vec1:
  "desEncryptBlockB
    (replicate 64 False)
    (replicate 64 False)
   = [True, False, False, False, True, True, False, False,
     True, False, True, False, False, True, True, False,
     False, True, False, False, True, True, False, True,
     True, True, True, False, True, False, False, True,
     True, True, False, False, False, False, False, True,
     True, False, True, True, False, False, False, True,
     False, False, True, False, False, False, True, True,
     True, False, True, False, False, True, True, True]"
  unfolding rep_simps by (simp add: des_block_simps desKeyScheduleB_0000000000000000 [unfolded rep_simps])

lemma des_vec1:
  "desEncryptBlock [0x00, 0x00, 0x00, 0x00, 0x00, 0x00, 0x00, 0x00] [0x00, 0x00, 0x00, 0x00, 0x00, 0x00, 0x00, 0x00] = [0x8C, 0xA6, 0x4D, 0xE9, 0xC1, 0xB1, 0x23, 0xA7]"
proof -
  have k: "length ([0x00, 0x00, 0x00, 0x00, 0x00, 0x00, 0x00, 0x00] :: byte list) = 8" by simp
  have p: "length ([0x00, 0x00, 0x00, 0x00, 0x00, 0x00, 0x00, 0x00] :: byte list) = 8" by simp
  note sim = desEncryptBlock_sim [OF k p]
  have "bitsOf (desEncryptBlock [0x00, 0x00, 0x00, 0x00, 0x00, 0x00, 0x00, 0x00] [0x00, 0x00, 0x00, 0x00, 0x00, 0x00, 0x00, 0x00]) = bitsOf [0x8C, 0xA6, 0x4D, 0xE9, 0xC1, 0xB1, 0x23, 0xA7]"
    by (simp only: conjunct1 [OF sim] bitsOf_0000000000000000 bitsOf_0000000000000000 bitsOf_8CA64DE9C1B123A7 desB_vec1)
  moreover have "length (desEncryptBlock [0x00, 0x00, 0x00, 0x00, 0x00, 0x00, 0x00, 0x00] [0x00, 0x00, 0x00, 0x00, 0x00, 0x00, 0x00, 0x00]) = length ([0x8C, 0xA6, 0x4D, 0xE9, 0xC1, 0xB1, 0x23, 0xA7] :: byte list)"
    by (simp add: conjunct2 [OF sim])
  ultimately show ?thesis by (intro bitsOf_inj)
qed

lemma bitsOf_0123456789ABCDEF:
  "bitsOf [0x01, 0x23, 0x45, 0x67, 0x89, 0xAB, 0xCD, 0xEF]
   = [False, False, False, False, False, False, False, True,
     False, False, True, False, False, False, True, True,
     False, True, False, False, False, True, False, True,
     False, True, True, False, False, True, True, True,
     True, False, False, False, True, False, False, True,
     True, False, True, False, True, False, True, True,
     True, True, False, False, True, True, False, True,
     True, True, True, False, True, True, True, True]"
  unfolding rep_simps by (simp add: bitsOf_def byteBits_def upt_8)

lemma bitsOf_4E6F772069732074:
  "bitsOf [0x4E, 0x6F, 0x77, 0x20, 0x69, 0x73, 0x20, 0x74]
   = [False, True, False, False, True, True, True, False,
     False, True, True, False, True, True, True, True,
     False, True, True, True, False, True, True, True,
     False, False, True, False, False, False, False, False,
     False, True, True, False, True, False, False, True,
     False, True, True, True, False, False, True, True,
     False, False, True, False, False, False, False, False,
     False, True, True, True, False, True, False, False]"
  unfolding rep_simps by (simp add: bitsOf_def byteBits_def upt_8)

lemma bitsOf_3FA40E8A984D4815:
  "bitsOf [0x3F, 0xA4, 0x0E, 0x8A, 0x98, 0x4D, 0x48, 0x15]
   = [False, False, True, True, True, True, True, True,
     True, False, True, False, False, True, False, False,
     False, False, False, False, True, True, True, False,
     True, False, False, False, True, False, True, False,
     True, False, False, True, True, False, False, False,
     False, True, False, False, True, True, False, True,
     False, True, False, False, True, False, False, False,
     False, False, False, True, False, True, False, True]"
  unfolding rep_simps by (simp add: bitsOf_def byteBits_def upt_8)

lemma desKeyScheduleB_0123456789ABCDEF:
  "desKeyScheduleB
    [False, False, False, False, False, False, False, True,
     False, False, True, False, False, False, True, True,
     False, True, False, False, False, True, False, True,
     False, True, True, False, False, True, True, True,
     True, False, False, False, True, False, False, True,
     True, False, True, False, True, False, True, True,
     True, True, False, False, True, True, False, True,
     True, True, True, False, True, True, True, True]
   = [[False, False, False, False, True, False, True, True,
     False, False, False, False, False, False, True, False,
     False, True, True, False, False, True, True, True,
     True, False, False, True, True, False, True, True,
     False, True, False, False, True, False, False, True,
     True, False, True, False, False, True, False, True],
    [False, True, True, False, True, False, False, True,
     True, False, True, False, False, True, True, False,
     False, True, False, True, True, False, False, True,
     False, False, True, False, False, True, False, True,
     False, True, True, False, True, False, True, False,
     False, False, True, False, False, True, True, False],
    [False, True, False, False, False, True, False, True,
     True, True, False, True, False, True, False, False,
     True, False, False, False, True, False, True, False,
     True, False, True, True, False, True, False, False,
     False, False, True, False, True, False, False, False,
     True, True, False, True, False, False, True, False],
    [False, True, True, True, False, False, True, False,
     True, False, False, False, True, False, False, True,
     True, True, False, True, False, False, True, False,
     True, False, True, False, False, True, False, True,
     True, False, False, False, False, False, True, False,
     False, True, False, True, False, True, True, True],
    [False, False, True, True, True, True, False, False,
     True, True, True, False, True, False, False, False,
     False, False, False, False, False, False, True, True,
     False, False, False, True, False, True, True, True,
     True, False, True, False, False, True, True, False,
     True, True, False, False, False, False, True, False],
    [False, False, True, False, False, False, True, True,
     False, False, True, False, False, True, False, True,
     False, False, False, True, True, True, True, False,
     False, False, True, True, True, True, False, False,
     True, False, False, False, False, True, False, True,
     False, True, False, False, False, True, False, True],
    [False, True, True, False, True, True, False, False,
     False, False, False, False, False, True, False, False,
     True, False, False, True, False, True, False, True,
     False, False, False, False, True, False, True, False,
     True, True, True, False, False, True, False, False,
     True, True, False, False, False, True, True, False],
    [False, True, False, True, False, True, True, True,
     True, False, False, False, True, False, False, False,
     False, False, True, True, True, False, False, False,
     False, True, True, False, True, True, False, False,
     True, True, True, False, False, True, False, True,
     True, False, False, False, False, False, False, True],
    [True, True, False, False, False, False, False, False,
     True, True, False, False, True, False, False, True,
     True, True, True, False, True, False, False, True,
     False, False, True, False, False, True, True, False,
     True, False, True, True, True, False, False, False,
     False, False, True, True, True, False, False, True],
    [True, False, False, True, False, False, False, True,
     True, True, True, False, False, False, True, True,
     False, False, False, False, False, True, True, True,
     False, True, True, False, False, False, True, True,
     False, False, False, True, True, True, False, True,
     False, True, True, True, False, False, True, False],
    [False, False, True, False, False, False, False, True,
     False, False, False, True, True, True, True, True,
     True, False, False, False, False, False, True, True,
     False, False, False, False, True, True, False, True,
     True, False, False, False, True, False, False, True,
     False, False, True, True, True, False, True, False],
    [False, True, True, True, False, False, False, True,
     False, False, True, True, False, False, False, False,
     True, True, True, False, False, True, False, True,
     False, True, False, False, False, True, False, True,
     False, True, False, True, True, True, False, False,
     False, True, False, True, False, True, False, False],
    [True, False, False, True, False, False, False, True,
     True, True, False, False, False, True, False, False,
     True, True, False, True, False, False, False, False,
     False, True, False, False, True, False, False, True,
     True, False, False, False, False, False, False, False,
     True, True, True, True, True, True, False, False],
    [False, True, False, True, False, True, False, False,
     False, True, False, False, False, False, True, True,
     True, False, True, True, False, True, True, False,
     True, False, False, False, False, False, False, True,
     True, True, False, True, True, True, False, False,
     True, False, False, False, True, True, False, True],
    [True, False, True, True, False, True, True, False,
     True, False, False, True, False, False, False, True,
     False, False, False, False, False, True, False, True,
     False, False, False, False, True, False, True, False,
     False, False, False, True, False, True, True, False,
     True, False, True, True, False, True, False, True],
    [True, True, False, False, True, False, True, False,
     False, False, True, True, True, True, False, True,
     False, False, False, False, False, False, True, True,
     True, False, True, True, True, False, False, False,
     False, True, True, True, False, False, False, False,
     False, False, True, True, False, False, True, False]]"
  unfolding rep_simps by (simp add: des_key_simps)

lemma desB_vec2:
  "desEncryptBlockB
    [False, False, False, False, False, False, False, True,
     False, False, True, False, False, False, True, True,
     False, True, False, False, False, True, False, True,
     False, True, True, False, False, True, True, True,
     True, False, False, False, True, False, False, True,
     True, False, True, False, True, False, True, True,
     True, True, False, False, True, True, False, True,
     True, True, True, False, True, True, True, True]
    [False, True, False, False, True, True, True, False,
     False, True, True, False, True, True, True, True,
     False, True, True, True, False, True, True, True,
     False, False, True, False, False, False, False, False,
     False, True, True, False, True, False, False, True,
     False, True, True, True, False, False, True, True,
     False, False, True, False, False, False, False, False,
     False, True, True, True, False, True, False, False]
   = [False, False, True, True, True, True, True, True,
     True, False, True, False, False, True, False, False,
     False, False, False, False, True, True, True, False,
     True, False, False, False, True, False, True, False,
     True, False, False, True, True, False, False, False,
     False, True, False, False, True, True, False, True,
     False, True, False, False, True, False, False, False,
     False, False, False, True, False, True, False, True]"
  unfolding rep_simps by (simp add: des_block_simps desKeyScheduleB_0123456789ABCDEF [unfolded rep_simps])

lemma des_vec2:
  "desEncryptBlock [0x01, 0x23, 0x45, 0x67, 0x89, 0xAB, 0xCD, 0xEF] [0x4E, 0x6F, 0x77, 0x20, 0x69, 0x73, 0x20, 0x74] = [0x3F, 0xA4, 0x0E, 0x8A, 0x98, 0x4D, 0x48, 0x15]"
proof -
  have k: "length ([0x01, 0x23, 0x45, 0x67, 0x89, 0xAB, 0xCD, 0xEF] :: byte list) = 8" by simp
  have p: "length ([0x4E, 0x6F, 0x77, 0x20, 0x69, 0x73, 0x20, 0x74] :: byte list) = 8" by simp
  note sim = desEncryptBlock_sim [OF k p]
  have "bitsOf (desEncryptBlock [0x01, 0x23, 0x45, 0x67, 0x89, 0xAB, 0xCD, 0xEF] [0x4E, 0x6F, 0x77, 0x20, 0x69, 0x73, 0x20, 0x74]) = bitsOf [0x3F, 0xA4, 0x0E, 0x8A, 0x98, 0x4D, 0x48, 0x15]"
    by (simp only: conjunct1 [OF sim] bitsOf_0123456789ABCDEF bitsOf_4E6F772069732074 bitsOf_3FA40E8A984D4815 desB_vec2)
  moreover have "length (desEncryptBlock [0x01, 0x23, 0x45, 0x67, 0x89, 0xAB, 0xCD, 0xEF] [0x4E, 0x6F, 0x77, 0x20, 0x69, 0x73, 0x20, 0x74]) = length ([0x3F, 0xA4, 0x0E, 0x8A, 0x98, 0x4D, 0x48, 0x15] :: byte list)"
    by (simp add: conjunct2 [OF sim])
  ultimately show ?thesis by (intro bitsOf_inj)
qed

lemma bitsOf_FFFFFFFFFFFFFFFF:
  "bitsOf [0xFF, 0xFF, 0xFF, 0xFF, 0xFF, 0xFF, 0xFF, 0xFF]
   = (replicate 64 True)"
  unfolding rep_simps by (simp add: bitsOf_def byteBits_def upt_8)

lemma bitsOf_7359B2163E4EDC58:
  "bitsOf [0x73, 0x59, 0xB2, 0x16, 0x3E, 0x4E, 0xDC, 0x58]
   = [False, True, True, True, False, False, True, True,
     False, True, False, True, True, False, False, True,
     True, False, True, True, False, False, True, False,
     False, False, False, True, False, True, True, False,
     False, False, True, True, True, True, True, False,
     False, True, False, False, True, True, True, False,
     True, True, False, True, True, True, False, False,
     False, True, False, True, True, False, False, False]"
  unfolding rep_simps by (simp add: bitsOf_def byteBits_def upt_8)

lemma desKeyScheduleB_FFFFFFFFFFFFFFFF:
  "desKeyScheduleB
    (replicate 64 True)
   = (replicate 16 (replicate 48 True))"
  unfolding rep_simps by (simp add: des_key_simps)

lemma desB_vec3:
  "desEncryptBlockB
    (replicate 64 True)
    (replicate 64 True)
   = [False, True, True, True, False, False, True, True,
     False, True, False, True, True, False, False, True,
     True, False, True, True, False, False, True, False,
     False, False, False, True, False, True, True, False,
     False, False, True, True, True, True, True, False,
     False, True, False, False, True, True, True, False,
     True, True, False, True, True, True, False, False,
     False, True, False, True, True, False, False, False]"
  unfolding rep_simps by (simp add: des_block_simps desKeyScheduleB_FFFFFFFFFFFFFFFF [unfolded rep_simps])

lemma des_vec3:
  "desEncryptBlock [0xFF, 0xFF, 0xFF, 0xFF, 0xFF, 0xFF, 0xFF, 0xFF] [0xFF, 0xFF, 0xFF, 0xFF, 0xFF, 0xFF, 0xFF, 0xFF] = [0x73, 0x59, 0xB2, 0x16, 0x3E, 0x4E, 0xDC, 0x58]"
proof -
  have k: "length ([0xFF, 0xFF, 0xFF, 0xFF, 0xFF, 0xFF, 0xFF, 0xFF] :: byte list) = 8" by simp
  have p: "length ([0xFF, 0xFF, 0xFF, 0xFF, 0xFF, 0xFF, 0xFF, 0xFF] :: byte list) = 8" by simp
  note sim = desEncryptBlock_sim [OF k p]
  have "bitsOf (desEncryptBlock [0xFF, 0xFF, 0xFF, 0xFF, 0xFF, 0xFF, 0xFF, 0xFF] [0xFF, 0xFF, 0xFF, 0xFF, 0xFF, 0xFF, 0xFF, 0xFF]) = bitsOf [0x73, 0x59, 0xB2, 0x16, 0x3E, 0x4E, 0xDC, 0x58]"
    by (simp only: conjunct1 [OF sim] bitsOf_FFFFFFFFFFFFFFFF bitsOf_FFFFFFFFFFFFFFFF bitsOf_7359B2163E4EDC58 desB_vec3)
  moreover have "length (desEncryptBlock [0xFF, 0xFF, 0xFF, 0xFF, 0xFF, 0xFF, 0xFF, 0xFF] [0xFF, 0xFF, 0xFF, 0xFF, 0xFF, 0xFF, 0xFF, 0xFF]) = length ([0x73, 0x59, 0xB2, 0x16, 0x3E, 0x4E, 0xDC, 0x58] :: byte list)"
    by (simp add: conjunct2 [OF sim])
  ultimately show ?thesis by (intro bitsOf_inj)
qed

lemma bitsOf_FEDCBA9876543210:
  "bitsOf [0xFE, 0xDC, 0xBA, 0x98, 0x76, 0x54, 0x32, 0x10]
   = [True, True, True, True, True, True, True, False,
     True, True, False, True, True, True, False, False,
     True, False, True, True, True, False, True, False,
     True, False, False, True, True, False, False, False,
     False, True, True, True, False, True, True, False,
     False, True, False, True, False, True, False, False,
     False, False, True, True, False, False, True, False,
     False, False, False, True, False, False, False, False]"
  unfolding rep_simps by (simp add: bitsOf_def byteBits_def upt_8)

lemma bitsOf_ED39D950FA74BCC4:
  "bitsOf [0xED, 0x39, 0xD9, 0x50, 0xFA, 0x74, 0xBC, 0xC4]
   = [True, True, True, False, True, True, False, True,
     False, False, True, True, True, False, False, True,
     True, True, False, True, True, False, False, True,
     False, True, False, True, False, False, False, False,
     True, True, True, True, True, False, True, False,
     False, True, True, True, False, True, False, False,
     True, False, True, True, True, True, False, False,
     True, True, False, False, False, True, False, False]"
  unfolding rep_simps by (simp add: bitsOf_def byteBits_def upt_8)

lemma desKeyScheduleB_FEDCBA9876543210:
  "desKeyScheduleB
    [True, True, True, True, True, True, True, False,
     True, True, False, True, True, True, False, False,
     True, False, True, True, True, False, True, False,
     True, False, False, True, True, False, False, False,
     False, True, True, True, False, True, True, False,
     False, True, False, True, False, True, False, False,
     False, False, True, True, False, False, True, False,
     False, False, False, True, False, False, False, False]
   = [[True, True, True, True, False, True, False, False,
     True, True, True, True, True, True, False, True,
     True, False, False, True, True, False, False, False,
     False, True, True, False, False, True, False, False,
     True, False, True, True, False, True, True, False,
     False, True, False, True, True, False, True, False],
    [True, False, False, True, False, True, True, False,
     False, True, False, True, True, False, False, True,
     True, False, True, False, False, True, True, False,
     True, True, False, True, True, False, True, False,
     True, False, False, True, False, True, False, True,
     True, True, False, True, True, False, False, True],
    [True, False, True, True, True, False, True, False,
     False, False, True, False, True, False, True, True,
     False, True, True, True, False, True, False, True,
     False, True, False, False, True, False, True, True,
     True, True, False, True, False, True, True, True,
     False, False, True, False, True, True, False, True],
    [True, False, False, False, True, True, False, True,
     False, True, True, True, False, True, True, False,
     False, False, True, False, True, True, False, True,
     False, True, False, True, True, False, True, False,
     False, True, True, True, True, True, False, True,
     True, False, True, False, True, False, False, False],
    [True, True, False, False, False, False, True, True,
     False, False, False, True, False, True, True, True,
     True, True, True, True, True, True, False, False,
     True, True, True, False, True, False, False, False,
     False, True, False, True, True, False, False, True,
     False, False, True, True, True, True, False, True],
    [True, True, False, True, True, True, False, False,
     True, True, False, True, True, False, True, False,
     True, True, True, False, False, False, False, True,
     True, True, False, False, False, False, True, True,
     False, True, True, True, True, False, True, False,
     True, False, True, True, True, False, True, False],
    [True, False, False, True, False, False, True, True,
     True, True, True, True, True, False, True, True,
     False, True, True, False, True, False, True, False,
     True, True, True, True, False, True, False, True,
     False, False, False, True, True, False, True, True,
     False, False, True, True, True, False, False, True],
    [True, False, True, False, True, False, False, False,
     False, True, True, True, False, True, True, True,
     True, True, False, False, False, True, True, True,
     True, False, False, True, False, False, True, True,
     False, False, False, True, True, False, True, False,
     False, True, True, True, True, True, True, False],
    [False, False, True, True, True, True, True, True,
     False, False, True, True, False, True, True, False,
     False, False, False, True, False, True, True, False,
     True, True, False, True, True, False, False, True,
     False, True, False, False, False, True, True, True,
     True, True, False, False, False, True, True, False],
    [False, True, True, False, True, True, True, False,
     False, False, False, True, True, True, False, False,
     True, True, True, True, True, False, False, False,
     True, False, False, True, True, True, False, False,
     True, True, True, False, False, False, True, False,
     True, False, False, False, True, True, False, True],
    [True, True, False, True, True, True, True, False,
     True, True, True, False, False, False, False, False,
     False, True, True, True, True, True, False, False,
     True, True, True, True, False, False, True, False,
     False, True, True, True, False, True, True, False,
     True, True, False, False, False, True, False, True],
    [True, False, False, False, True, True, True, False,
     True, True, False, False, True, True, True, True,
     False, False, False, True, True, False, True, False,
     True, False, True, True, True, False, True, False,
     True, False, True, False, False, False, True, True,
     True, False, True, False, True, False, True, True],
    [False, True, True, False, True, True, True, False,
     False, False, True, True, True, False, True, True,
     False, False, True, False, True, True, True, True,
     True, False, True, True, False, True, True, False,
     False, True, True, True, True, True, True, True,
     False, False, False, False, False, False, True, True],
    [True, False, True, False, True, False, True, True,
     True, False, True, True, True, True, False, False,
     False, True, False, False, True, False, False, True,
     False, True, True, True, True, True, True, False,
     False, False, True, False, False, False, True, True,
     False, True, True, True, False, False, True, False],
    [False, True, False, False, True, False, False, True,
     False, True, True, False, True, True, True, False,
     True, True, True, True, True, False, True, False,
     True, True, True, True, False, True, False, True,
     True, True, True, False, True, False, False, True,
     False, True, False, False, True, False, True, False],
    [False, False, True, True, False, True, False, True,
     True, True, False, False, False, False, True, False,
     True, True, True, True, True, True, False, False,
     False, True, False, False, False, True, True, True,
     True, False, False, False, True, True, True, True,
     True, True, False, False, True, True, False, True]]"
  unfolding rep_simps by (simp add: des_key_simps)

lemma desB_vec4:
  "desEncryptBlockB
    [True, True, True, True, True, True, True, False,
     True, True, False, True, True, True, False, False,
     True, False, True, True, True, False, True, False,
     True, False, False, True, True, False, False, False,
     False, True, True, True, False, True, True, False,
     False, True, False, True, False, True, False, False,
     False, False, True, True, False, False, True, False,
     False, False, False, True, False, False, False, False]
    [False, False, False, False, False, False, False, True,
     False, False, True, False, False, False, True, True,
     False, True, False, False, False, True, False, True,
     False, True, True, False, False, True, True, True,
     True, False, False, False, True, False, False, True,
     True, False, True, False, True, False, True, True,
     True, True, False, False, True, True, False, True,
     True, True, True, False, True, True, True, True]
   = [True, True, True, False, True, True, False, True,
     False, False, True, True, True, False, False, True,
     True, True, False, True, True, False, False, True,
     False, True, False, True, False, False, False, False,
     True, True, True, True, True, False, True, False,
     False, True, True, True, False, True, False, False,
     True, False, True, True, True, True, False, False,
     True, True, False, False, False, True, False, False]"
  unfolding rep_simps by (simp add: des_block_simps desKeyScheduleB_FEDCBA9876543210 [unfolded rep_simps])

lemma des_vec4:
  "desEncryptBlock [0xFE, 0xDC, 0xBA, 0x98, 0x76, 0x54, 0x32, 0x10] [0x01, 0x23, 0x45, 0x67, 0x89, 0xAB, 0xCD, 0xEF] = [0xED, 0x39, 0xD9, 0x50, 0xFA, 0x74, 0xBC, 0xC4]"
proof -
  have k: "length ([0xFE, 0xDC, 0xBA, 0x98, 0x76, 0x54, 0x32, 0x10] :: byte list) = 8" by simp
  have p: "length ([0x01, 0x23, 0x45, 0x67, 0x89, 0xAB, 0xCD, 0xEF] :: byte list) = 8" by simp
  note sim = desEncryptBlock_sim [OF k p]
  have "bitsOf (desEncryptBlock [0xFE, 0xDC, 0xBA, 0x98, 0x76, 0x54, 0x32, 0x10] [0x01, 0x23, 0x45, 0x67, 0x89, 0xAB, 0xCD, 0xEF]) = bitsOf [0xED, 0x39, 0xD9, 0x50, 0xFA, 0x74, 0xBC, 0xC4]"
    by (simp only: conjunct1 [OF sim] bitsOf_FEDCBA9876543210 bitsOf_0123456789ABCDEF bitsOf_ED39D950FA74BCC4 desB_vec4)
  moreover have "length (desEncryptBlock [0xFE, 0xDC, 0xBA, 0x98, 0x76, 0x54, 0x32, 0x10] [0x01, 0x23, 0x45, 0x67, 0x89, 0xAB, 0xCD, 0xEF]) = length ([0xED, 0x39, 0xD9, 0x50, 0xFA, 0x74, 0xBC, 0xC4] :: byte list)"
    by (simp add: conjunct2 [OF sim])
  ultimately show ?thesis by (intro bitsOf_inj)
qed


section \<open>Claims about the DES primitive\<close>

text \<open>
  C1. The DES-ECB block encryption function matches the published FIPS 46-3 vectors:
  key 00..00, plaintext 00..00 gives 8CA64DE9C1B123A7; key 0123456789ABCDEF, plaintext
  4E6F772069732074 gives 3FA40E8A984D4815; key FF..FF, plaintext FF..FF gives
  7359B2163E4EDC58; key FEDCBA9876543210, plaintext 0123456789ABCDEF gives
  ED39D950FA74BCC4.
\<close>

theorem desEncryptBlock_fips_vectors:
  "desEncryptBlock [0x00, 0x00, 0x00, 0x00, 0x00, 0x00, 0x00, 0x00]
                   [0x00, 0x00, 0x00, 0x00, 0x00, 0x00, 0x00, 0x00]
     = [0x8C, 0xA6, 0x4D, 0xE9, 0xC1, 0xB1, 0x23, 0xA7]
   \<and> desEncryptBlock [0x01, 0x23, 0x45, 0x67, 0x89, 0xAB, 0xCD, 0xEF]
                     [0x4E, 0x6F, 0x77, 0x20, 0x69, 0x73, 0x20, 0x74]
     = [0x3F, 0xA4, 0x0E, 0x8A, 0x98, 0x4D, 0x48, 0x15]
   \<and> desEncryptBlock [0xFF, 0xFF, 0xFF, 0xFF, 0xFF, 0xFF, 0xFF, 0xFF]
                     [0xFF, 0xFF, 0xFF, 0xFF, 0xFF, 0xFF, 0xFF, 0xFF]
     = [0x73, 0x59, 0xB2, 0x16, 0x3E, 0x4E, 0xDC, 0x58]
   \<and> desEncryptBlock [0xFE, 0xDC, 0xBA, 0x98, 0x76, 0x54, 0x32, 0x10]
                     [0x01, 0x23, 0x45, 0x67, 0x89, 0xAB, 0xCD, 0xEF]
     = [0xED, 0x39, 0xD9, 0x50, 0xFA, 0x74, 0xBC, 0xC4]"
  using des_vec1 des_vec2 des_vec3 des_vec4 by simp

lemma cases8: "i < 8 \<Longrightarrow> i = 0 \<or> i = 1 \<or> i = 2 \<or> i = 3 \<or> i = 4 \<or> i = 5 \<or> i = 6 \<or> i = (7::nat)"
  by linarith

lemma swap4_bit: "i < 8 \<Longrightarrow> bit (drop_bit 4 (b AND 0xF0) OR push_bit 4 (b AND 0x0F) :: byte) i
   = bit b (if i < 4 then i + 4 else i - 4)"
  by (drule cases8) (auto simp add: bit_or_iff bit_and_iff bit_drop_bit_eq bit_push_bit_iff)

lemma swap2_bit: "i < 8 \<Longrightarrow> bit (drop_bit 2 (b AND 0xCC) OR push_bit 2 (b AND 0x33) :: byte) i
   = bit b (if i mod 4 < 2 then i + 2 else i - 2)"
  by (drule cases8) (auto simp add: bit_or_iff bit_and_iff bit_drop_bit_eq bit_push_bit_iff)

lemma swap1_bit:
  assumes "i < 8"
  shows "bit (drop_bit 1 (b AND 0xAA) OR push_bit 1 (b AND 0x55) :: byte) i
   = bit b (if even i then i + 1 else i - 1)"
proof -
  have "bit (drop_bit 1 (b AND 0xAA) OR push_bit 1 (b AND 0x55) :: byte) i
      = (bit (b AND 0xAA) (1 + i) \<or> (1 \<le> i \<and> possible_bit TYPE(byte) i \<and> bit (b AND 0x55) (i - 1)))"
    by (simp only: bit_or_iff bit_drop_bit_eq bit_push_bit_iff o_apply)
  also have "\<dots> = bit b (if even i then i + 1 else i - 1)"
    using cases8 [OF assms] by (auto simp add: bit_and_iff)
  finally show ?thesis .
qed

lemma desReverseBits_bit:
  assumes "i < 8"
  shows "bit (desReverseBits b) i = bit b (7 - i)"
proof -
  define i1 where "i1 = (if even i then i + 1 else i - 1)"
  define i2 where "i2 = (if i1 mod 4 < 2 then i1 + 2 else i1 - 2)"
  define i4 where "i4 = (if i2 < 4 then i2 + 4 else i2 - 4)"
  have r: "i1 < 8 \<and> i2 < 8 \<and> i4 = 7 - i"
    using cases8 [OF assms] unfolding i4_def i2_def i1_def by auto
  have "bit (desReverseBits b) i = bit b i4"
    unfolding desReverseBits_def Let_def
    using r assms by (simp only: swap1_bit swap2_bit swap4_bit i1_def [symmetric] i2_def [symmetric] i4_def [symmetric])
  with r show ?thesis by simp
qed

lemma desReverseBits_0: "desReverseBits 0 = 0"
  by (simp add: desReverseBits_def)

lemma key_fold:
  "n \<le> N \<Longrightarrow> n \<le> length pwd \<Longrightarrow>
   fold (\<lambda>i key. key[i := f (pwd ! i)]) [0..<n] (replicate N z)
     = map f (take n pwd) @ replicate (N - n) z"
proof (induction n)
  case 0
  then show ?case by simp
next
  case (Suc n)
  then have ih: "fold (\<lambda>i key. key[i := f (pwd ! i)]) [0..<n] (replicate N z)
     = map f (take n pwd) @ replicate (N - n) z" by simp
  from Suc.prems have r: "replicate (N - n) z = z # replicate (N - Suc n) z"
    by (cases "N - n") simp_all
  from Suc.prems have l: "length (map f (take n pwd)) = n" by simp
  from Suc.prems have t: "take (Suc n) pwd = take n pwd @ [pwd ! n]"
    by (simp add: take_Suc_conv_app_nth)
  show ?case
    unfolding upt_Suc_append [OF le0] fold_append o_apply ih fold_simps id_apply r t
    using Suc.prems by (simp add: list_update_append del: replicate_Suc)
qed

lemma vncKey_refines:
  "fold (\<lambda>i key. key[i := desReverseBits (pwd ! i)]) [0..<min (length pwd) 8] (replicate 8 0)
     = map desReverseBits (take 8 pwd @ replicate (8 - length pwd) 0)"
proof -
  have "fold (\<lambda>i key. key[i := desReverseBits (pwd ! i)]) [0..<min (length pwd) 8] (replicate 8 0)
     = map desReverseBits (take (min (length pwd) 8) pwd) @ replicate (8 - min (length pwd) 8) 0"
    by (rule key_fold) simp_all
  also have "take (min (length pwd) 8) pwd = take 8 pwd"
    by (simp add: min_def)
  also have "8 - min (length pwd) 8 = 8 - length pwd"
    by (simp add: min_def)
  finally show ?thesis by (simp add: desReverseBits_0)
qed

lemma length_desPermute: "length (desPermute tab n m src) = m"
proof -
  have "length (fold (desPermStep tab src) xs dst) = length dst" for xs dst
    by (induction xs arbitrary: dst) (simp_all add: length_desPermStep)
  then show ?thesis by (simp add: desPermute_def)
qed

lemma length_desEncryptBlock: "length (desEncryptBlock key input) = 8"
  by (simp add: desEncryptBlock_def Let_def length_desPermute)

section \<open>Claims about the VNC challenge response\<close>

text \<open>
  C2. For every password P and every 16-byte challenge C, the response is
  DES-ECB(K, C[0..8]) followed by DES-ECB(K, C[8..16]), 16 bytes in all, where K is built
  from the first 8 bytes of P read as Latin-1 (longer passwords truncated, shorter ones
  right-padded with zero bytes) by reversing the bit order of each byte (bit i goes to
  bit 7 - i); for the empty password and the all-zero challenge the response is
  8CA64DE9C1B123A7 twice.
\<close>

theorem vncEncryptChallenge_response:
  assumes "length C = 16"
  shows "vncEncryptChallenge P C
           = desEncryptBlock (vncKeySpec P) (take 8 C) @ desEncryptBlock (vncKeySpec P) (drop 8 C)
         \<and> length (vncEncryptChallenge P C) = 16
         \<and> length (vncKeySpec P) = 8
         \<and> (\<forall>b i. i < 8 \<longrightarrow> bit (desReverseBits b) i = bit b (7 - i))
         \<and> vncEncryptChallenge [] (replicate 16 0)
             = [0x8C, 0xA6, 0x4D, 0xE9, 0xC1, 0xB1, 0x23, 0xA7,
                0x8C, 0xA6, 0x4D, 0xE9, 0xC1, 0xB1, 0x23, 0xA7]"
proof -
  have key: "fold (\<lambda>i key. key[i := desReverseBits (toLatin1 P ! i)])
               [0..<min (length (toLatin1 P)) 8] (replicate 8 0) = vncKeySpec P" for P
    unfolding vncKeySpec_def by (rule vncKey_refines)
  have d: "take 8 (drop 8 C) = drop 8 C" using assms by simp
  have eq: "vncEncryptChallenge P C
      = desEncryptBlock (vncKeySpec P) (take 8 C) @ desEncryptBlock (vncKeySpec P) (drop 8 C)"
    unfolding vncEncryptChallenge_def Let_def key d ..
  have len: "length (vncEncryptChallenge P C) = 16"
    unfolding eq by (simp add: length_desEncryptBlock)
  have klen: "length (vncKeySpec P) = 8"
    by (simp add: vncKeySpec_def)
  have k0: "vncKeySpec [] = [0, 0, 0, 0, 0, 0, 0, 0]"
    by (simp add: vncKeySpec_def toLatin1_def desReverseBits_0 numeral_eq_Suc)
  have z8: "take 8 (replicate 16 (0::byte)) = [0, 0, 0, 0, 0, 0, 0, 0]"
           "take 8 (drop 8 (replicate 16 (0::byte))) = [0, 0, 0, 0, 0, 0, 0, 0]"
    by (simp_all add: numeral_eq_Suc)
  have zero: "vncEncryptChallenge [] (replicate 16 0)
             = [0x8C, 0xA6, 0x4D, 0xE9, 0xC1, 0xB1, 0x23, 0xA7,
                0x8C, 0xA6, 0x4D, 0xE9, 0xC1, 0xB1, 0x23, 0xA7]"
    unfolding vncEncryptChallenge_def Let_def key k0 z8 using des_vec1 by simp
  show ?thesis using eq len klen zero desReverseBits_bit by blast
qed

theorem vncEncryptChallenge_response_witness:
  "length (replicate 16 (0::byte)) = 16
   \<and> vncEncryptChallenge [] (replicate 16 0)
       = desEncryptBlock (vncKeySpec []) (take 8 (replicate 16 0))
         @ desEncryptBlock (vncKeySpec []) (drop 8 (replicate 16 0))
   \<and> length (vncEncryptChallenge [] (replicate 16 0)) = 16"
proof -
  have l: "length (replicate 16 (0::byte)) = 16" by simp
  from vncEncryptChallenge_response [OF l, of "[]"] l show ?thesis by blast
qed

end
